theory Spec2Isabelle
  imports Complex_Main
begin

section \<open>Data model\<close>

text \<open>
  The program \<^verbatim>\<open>memobase_add.py\<close> replays the turns of benchmark conversations into
  a remote memory service. Python exceptions are values of \<open>exn\<close>; every constructor
  stands for a subclass of \<^verbatim>\<open>Exception\<close>, so each is caught by
  \<^verbatim>\<open>except Exception\<close>. Interrupts that derive from \<^verbatim>\<open>BaseException\<close> only are
  not part of the model.
\<close>

datatype exn =
    ValueError string
  | KeyError string
  | TypeError string
  | OSError string
  | RemoteError string

text \<open>
  One chat turn of the dataset is the JSON object \<^verbatim>\<open>{"speaker": ..., "text": ...}\<close>.
  A value stored under a key of the \<^verbatim>\<open>conversation\<close> object is either a string
  (speaker names, timestamps) or an array of turns (a segment). The conversation is the
  list of its items in key order, with distinct keys, because the code iterates
  \<^verbatim>\<open>conversation.keys()\<close>. Of a dataset record only the key \<^verbatim>\<open>"conversation"\<close>
  is read.
\<close>

record chat =
  speaker :: string
  chat_text :: string

datatype field = Text string | Turns "chat list"

type_synonym conversation = "(string \<times> field) list"

type_synonym item = "(string \<times> conversation) list"

text \<open>The dictionaries appended to \<^verbatim>\<open>messages\<close> and \<^verbatim>\<open>messages_reverse\<close>.\<close>

record message =
  role :: string
  content :: string
  "alias" :: field
  created_at :: field

text \<open>The session object returned by \<^verbatim>\<open>get_or_create_user\<close>; the code reads \<^verbatim>\<open>u.user_id\<close>.\<close>

record user =
  user_id :: string

text \<open>
  Everything the program does to the outside world is recorded, in order, in a trace of
  events. An \<open>Insert\<close> and a \<open>DeleteUser\<close> event carry the outcome of the call
  (\<open>None\<close> when it returned, \<open>Some e\<close> when it raised \<open>e\<close>).
\<close>

datatype event =
    GetOrCreateUser string
  | Insert user "message list" "exn option"
  | Sleep nat
  | Flush user
  | Makedirs string
  | Profile user
  | WriteFile string string
  | Print string
  | DeleteUser string "exn option"
  | Submit nat item
  | ThreadExcepthook exn

type_synonym trace = "event list"

text \<open>
  The remote service, the file system and the library functions whose results the code
  cannot compute are an environment: each operation is a function of the trace so far
  and of its arguments, so an operation may fail on one call and succeed on the next.
  \<open>uuid5_dns\<close> is \<^verbatim>\<open>str(uuid.uuid5(uuid.NAMESPACE_DNS, _))\<close> and \<open>repr_turns\<close> is what an
  f-string prints for an array of turns.
\<close>

record env =
  uuid5_dns :: "string \<Rightarrow> string"
  repr_turns :: "chat list \<Rightarrow> string"
  remote_get_or_create_user :: "trace \<Rightarrow> string \<Rightarrow> exn + user"
  remote_insert :: "trace \<Rightarrow> user \<Rightarrow> message list \<Rightarrow> exn option"
  remote_flush :: "trace \<Rightarrow> user \<Rightarrow> exn option"
  remote_profile :: "trace \<Rightarrow> user \<Rightarrow> exn + string"
  remote_delete_user :: "trace \<Rightarrow> string \<Rightarrow> exn option"
  os_makedirs :: "trace \<Rightarrow> string \<Rightarrow> exn option"
  write_json :: "trace \<Rightarrow> string \<Rightarrow> string \<Rightarrow> exn option"

text \<open>The fields of a \<^verbatim>\<open>MemobaseADD\<close> object that its methods read after construction.\<close>

record memobase_add =
  batch_size :: int
  data :: "item list option"

section \<open>Python primitives\<close>

text \<open>\<^verbatim>\<open>range(n)\<close>: the integers from 0 to \<open>n - 1\<close>, none when \<open>n \<le> 0\<close>.\<close>

definition py_range :: "int \<Rightarrow> int list" where
  "py_range n = [0..n - 1]"

text \<open>
  \<^verbatim>\<open>range(start, stop, step)\<close> counts up for a positive step and down for a negative
  one; a step of zero raises \<^verbatim>\<open>ValueError\<close>.
\<close>

function range_from :: "int \<Rightarrow> int \<Rightarrow> int \<Rightarrow> int list" where
  "range_from i stop step =
     (if 0 < step \<and> i < stop then i # range_from (i + step) stop step
      else if step < 0 \<and> stop < i then i # range_from (i + step) stop step
      else [])"
  by pat_completeness auto
termination
  by (relation "measure (\<lambda>(i, stop, step). nat (if 0 < step then stop - i else i - stop))") auto

declare range_from.simps [simp del]

definition py_range3 :: "int \<Rightarrow> int \<Rightarrow> int \<Rightarrow> exn + int list" where
  "py_range3 start stop step =
     (if step = 0 then Inl (ValueError ''range() arg 3 must not be zero'')
      else Inr (range_from start stop step))"

text \<open>
  A slice \<^verbatim>\<open>xs[i:j]\<close>: a negative bound counts from the end, and both bounds are clamped
  to the list, so a slice never raises.
\<close>

definition slice_index :: "nat \<Rightarrow> int \<Rightarrow> nat" where
  "slice_index n i = (if i < 0 then nat (max 0 (int n + i)) else min n (nat i))"

definition py_slice :: "'a list \<Rightarrow> int \<Rightarrow> int \<Rightarrow> 'a list" where
  "py_slice xs i j =
     (let a = slice_index (length xs) i; b = slice_index (length xs) j
      in take (b - a) (drop a xs))"

text \<open>The substring test \<^verbatim>\<open>sub in s\<close> on strings.\<close>

fun py_in :: "string \<Rightarrow> string \<Rightarrow> bool" where
  "py_in sub [] = (sub = [])"
| "py_in sub (c # cs) = (take (length sub) (c # cs) = sub \<or> py_in sub cs)"

text \<open>The decimal digits an f-string prints for a non-negative integer.\<close>

definition digit_char :: "nat \<Rightarrow> char" where
  "digit_char d = ''0123456789'' ! d"

function str_nat :: "nat \<Rightarrow> string" where
  "str_nat n = (if n < 10 then [digit_char n] else str_nat (n div 10) @ [digit_char (n mod 10)])"
  by pat_completeness auto
termination
  by (relation "measure id") auto

declare str_nat.simps [simp del]

text \<open>What an f-string prints for a value of the conversation object.\<close>

definition str_field :: "env \<Rightarrow> field \<Rightarrow> string" where
  "str_field en v = (case v of Text s \<Rightarrow> s | Turns cs \<Rightarrow> repr_turns en cs)"

text \<open>\<^verbatim>\<open>str(e)\<close> of an exception: its message; a \<^verbatim>\<open>KeyError\<close> prints the key quoted.\<close>

definition str_exn :: "exn \<Rightarrow> string" where
  "str_exn e =
     (case e of
        ValueError m \<Rightarrow> m
      | KeyError k \<Rightarrow> [CHR 0x27] @ k @ [CHR 0x27]
      | TypeError m \<Rightarrow> m
      | OSError m \<Rightarrow> m
      | RemoteError m \<Rightarrow> m)"

section \<open>The program\<close>

definition default_salt :: string where
  "default_salt = ''memobase_client''"

definition string_to_uuid :: "env \<Rightarrow> string \<Rightarrow> string \<Rightarrow> string" where
  "string_to_uuid en s salt = uuid5_dns en (s @ salt)"

subsection \<open>\<^verbatim>\<open>add_memory\<close>\<close>

text \<open>
  The loop \<^verbatim>\<open>for attempt in range(retries)\<close>: a successful insert returns at once; a
  failed one sleeps and goes on while \<^verbatim>\<open>attempt < retries - 1\<close>, and raises the
  exception otherwise. When the range is exhausted the method returns \<^verbatim>\<open>None\<close>.
\<close>

fun add_memory_loop ::
  "env \<Rightarrow> user \<Rightarrow> message list \<Rightarrow> int \<Rightarrow> int list \<Rightarrow> trace \<Rightarrow> (exn + unit) \<times> trace" where
  "add_memory_loop en u msg retries [] tr = (Inr (), tr)"
| "add_memory_loop en u msg retries (attempt # rest) tr =
     (case remote_insert en tr u msg of
        None \<Rightarrow> (Inr (), tr @ [Insert u msg None])
      | Some e \<Rightarrow>
          (if attempt < retries - 1
           then add_memory_loop en u msg retries rest (tr @ [Insert u msg (Some e), Sleep 1])
           else (Inl e, tr @ [Insert u msg (Some e)])))"

definition add_memory :: "env \<Rightarrow> user \<Rightarrow> message list \<Rightarrow> int \<Rightarrow> trace \<Rightarrow> (exn + unit) \<times> trace" where
  "add_memory en u msg retries tr = add_memory_loop en u msg retries (py_range retries) tr"

definition default_retries :: int where
  "default_retries = 3"

subsection \<open>\<^verbatim>\<open>add_memories_for_speaker\<close>\<close>

text \<open>
  The loop over \<^verbatim>\<open>range(0, len(messages), self.batch_size)\<close>: each index sends the
  slice \<^verbatim>\<open>messages[i : i + self.batch_size]\<close> through \<open>add_memory\<close> with the default
  retry budget; an exception leaves the loop.
\<close>

fun upload_batches ::
  "env \<Rightarrow> memobase_add \<Rightarrow> user \<Rightarrow> message list \<Rightarrow> int list \<Rightarrow> trace \<Rightarrow> (exn + unit) \<times> trace" where
  "upload_batches en self u messages [] tr = (Inr (), tr)"
| "upload_batches en self u messages (i # rest) tr =
     (let batch_messages = py_slice messages i (i + batch_size self)
      in case add_memory en u batch_messages default_retries tr of
           (Inl e, tr') \<Rightarrow> (Inl e, tr')
         | (Inr _, tr') \<Rightarrow> upload_batches en self u messages rest tr')"

text \<open>
  The \<^verbatim>\<open>try\<close> block that fetches the profile and writes it to
  \<^verbatim>\<open>memobase_memories/<user_id>.json\<close>; its handler prints and returns.
\<close>

definition save_profile :: "env \<Rightarrow> user \<Rightarrow> trace \<Rightarrow> trace" where
  "save_profile en u tr =
     (case remote_profile en tr u of
        Inl e \<Rightarrow>
          tr @ [Profile u,
                Print (''Failed to save profile for user '' @ user_id u @ '': '' @ str_exn e)]
      | Inr profile_data \<Rightarrow>
          (let path = ''memobase_memories/'' @ user_id u @ ''.json'';
               tr1 = tr @ [Profile u]
           in case write_json en tr1 path profile_data of
                Some e \<Rightarrow>
                  tr1 @ [WriteFile path profile_data,
                         Print (''Failed to save profile for user '' @ user_id u @ '': '' @ str_exn e)]
              | None \<Rightarrow>
                  tr1 @ [WriteFile path profile_data,
                         Print (''Profile saved for user '' @ user_id u)]))"

definition add_memories_for_speaker ::
  "env \<Rightarrow> memobase_add \<Rightarrow> string \<Rightarrow> message list \<Rightarrow> string \<Rightarrow> trace \<Rightarrow> (exn + unit) \<times> trace" where
  "add_memories_for_speaker en self speaker_id messages desc tr =
     (let real_uid = string_to_uuid en speaker_id default_salt;
          tr1 = tr @ [GetOrCreateUser real_uid]
      in case remote_get_or_create_user en tr real_uid of
           Inl e \<Rightarrow> (Inl e, tr1)
         | Inr u \<Rightarrow>
             (case py_range3 0 (int (length messages)) (batch_size self) of
                Inl e \<Rightarrow> (Inl e, tr1)
              | Inr indices \<Rightarrow>
                  (case upload_batches en self u messages indices tr1 of
                     (Inl e, tr2) \<Rightarrow> (Inl e, tr2)
                   | (Inr _, tr2) \<Rightarrow>
                       (case remote_flush en tr2 u of
                          Some e \<Rightarrow> (Inl e, tr2 @ [Flush u])
                        | None \<Rightarrow>
                            (let tr3 = tr2 @ [Flush u];
                                 tr4 = tr3 @ [Makedirs ''memobase_memories'']
                             in case os_makedirs en tr3 ''memobase_memories'' of
                                  Some e \<Rightarrow> (Inl e, tr4)
                                | None \<Rightarrow> (Inr (), save_profile en u tr4))))))"

subsection \<open>\<^verbatim>\<open>process_conversation\<close>\<close>

text \<open>
  The inner loop \<^verbatim>\<open>for chat in chats\<close>: a turn of speaker A is appended to
  \<^verbatim>\<open>messages\<close>, a turn of speaker B to \<^verbatim>\<open>messages_reverse\<close>, and any other turn raises
  the \<^verbatim>\<open>ValueError\<close> that \<open>unknown_speaker\<close> builds from the turn's label.
\<close>

definition unknown_speaker :: "string \<Rightarrow> exn" where
  "unknown_speaker s = ValueError (''Unknown speaker: '' @ s)"

fun split_chats ::
  "field \<Rightarrow> field \<Rightarrow> field \<Rightarrow> chat list \<Rightarrow> message list \<Rightarrow> message list
     \<Rightarrow> exn + (message list \<times> message list)" where
  "split_chats speaker_a speaker_b timestamp [] messages messages_reverse =
     Inr (messages, messages_reverse)"
| "split_chats speaker_a speaker_b timestamp (c # chats) messages messages_reverse =
     (if Text (speaker c) = speaker_a then
        split_chats speaker_a speaker_b timestamp chats
          (messages @ [\<lparr>role = ''user'', content = chat_text c, alias = speaker_a,
                        created_at = timestamp\<rparr>])
          messages_reverse
      else if Text (speaker c) = speaker_b then
        split_chats speaker_a speaker_b timestamp chats messages
          (messages_reverse @ [\<lparr>role = ''user'', content = chat_text c, alias = speaker_b,
                                created_at = timestamp\<rparr>])
      else Inl (unknown_speaker (speaker c)))"

text \<open>
  The value under a segment key is iterated whatever it is: an array gives its turns, an
  empty string gives nothing, and a character of a non-empty string cannot be indexed by
  \<^verbatim>\<open>"speaker"\<close>.
\<close>

definition split_segment ::
  "field \<Rightarrow> field \<Rightarrow> field \<Rightarrow> field \<Rightarrow> exn + (message list \<times> message list)" where
  "split_segment speaker_a speaker_b timestamp chats =
     (case chats of
        Turns cs \<Rightarrow> split_chats speaker_a speaker_b timestamp cs [] []
      | Text s \<Rightarrow>
          (if s = [] then Inr ([], [])
           else Inl (TypeError ''string indices must be integers'')))"

text \<open>
  A \<^verbatim>\<open>threading.Thread\<close> whose target raises hands the exception to
  \<^verbatim>\<open>threading.excepthook\<close>; \<^verbatim>\<open>join\<close> returns normally. The model runs thread A to its
  end and then thread B, which is one of the schedules the two threads can take.
\<close>

definition run_thread ::
  "env \<Rightarrow> memobase_add \<Rightarrow> string \<Rightarrow> message list \<Rightarrow> string \<Rightarrow> trace \<Rightarrow> trace" where
  "run_thread en self speaker_id messages desc tr =
     (case add_memories_for_speaker en self speaker_id messages desc tr of
        (Inl e, tr') \<Rightarrow> tr' @ [ThreadExcepthook e]
      | (Inr _, tr') \<Rightarrow> tr')"

text \<open>The \<^verbatim>\<open>try\<close> block of the two deletions, whose handler is \<^verbatim>\<open>pass\<close>.\<close>

definition delete_users :: "env \<Rightarrow> string \<Rightarrow> string \<Rightarrow> trace \<Rightarrow> trace" where
  "delete_users en speaker_a_user_id speaker_b_user_id tr =
     (let uid_a = string_to_uuid en speaker_a_user_id default_salt
      in case remote_delete_user en tr uid_a of
           Some e \<Rightarrow> tr @ [DeleteUser uid_a (Some e)]
         | None \<Rightarrow>
             (let tr1 = tr @ [DeleteUser uid_a None];
                  uid_b = string_to_uuid en speaker_b_user_id default_salt
              in tr1 @ [DeleteUser uid_b (remote_delete_user en tr1 uid_b)]))"

definition skipped_key :: "string \<Rightarrow> bool" where
  "skipped_key key \<longleftrightarrow>
     key \<in> set [''speaker_a'', ''speaker_b''] \<or> py_in ''date'' key \<or> py_in ''timestamp'' key"

text \<open>The loop \<^verbatim>\<open>for key in conversation.keys()\<close>.\<close>

fun process_keys ::
  "env \<Rightarrow> memobase_add \<Rightarrow> conversation \<Rightarrow> field \<Rightarrow> field \<Rightarrow> string \<Rightarrow> string \<Rightarrow> string list
     \<Rightarrow> trace \<Rightarrow> (exn + unit) \<times> trace" where
  "process_keys en self conv speaker_a speaker_b id_a id_b [] tr = (Inr (), tr)"
| "process_keys en self conv speaker_a speaker_b id_a id_b (key # keys) tr =
     (if skipped_key key then process_keys en self conv speaker_a speaker_b id_a id_b keys tr
      else
        (let date_time_key = key @ ''_date_time''
         in case map_of conv date_time_key of
              None \<Rightarrow> (Inl (KeyError date_time_key), tr)
            | Some timestamp \<Rightarrow>
                (case map_of conv key of
                   None \<Rightarrow> (Inl (KeyError key), tr)
                 | Some chats \<Rightarrow>
                     (case split_segment speaker_a speaker_b timestamp chats of
                        Inl e \<Rightarrow> (Inl e, tr)
                      | Inr (messages, messages_reverse) \<Rightarrow>
                          (let tr1 = run_thread en self id_a messages
                                       ''Adding Memories for Speaker A'' tr;
                               tr2 = run_thread en self id_b messages_reverse
                                       ''Adding Memories for Speaker B'' tr1
                           in process_keys en self conv speaker_a speaker_b id_a id_b keys tr2)))))"

definition process_conversation ::
  "env \<Rightarrow> memobase_add \<Rightarrow> item \<Rightarrow> nat \<Rightarrow> trace \<Rightarrow> (exn + unit) \<times> trace" where
  "process_conversation en self itm idx tr =
     (case map_of itm ''conversation'' of
        None \<Rightarrow> (Inl (KeyError ''conversation''), tr)
      | Some conv \<Rightarrow>
          (case map_of conv ''speaker_a'' of
             None \<Rightarrow> (Inl (KeyError ''speaker_a''), tr)
           | Some speaker_a \<Rightarrow>
               (case map_of conv ''speaker_b'' of
                  None \<Rightarrow> (Inl (KeyError ''speaker_b''), tr)
                | Some speaker_b \<Rightarrow>
                    (let speaker_a_user_id = str_field en speaker_a @ ''_'' @ str_nat idx;
                         speaker_b_user_id = str_field en speaker_b @ ''_'' @ str_nat idx;
                         tr1 = delete_users en speaker_a_user_id speaker_b_user_id tr
                     in case process_keys en self conv speaker_a speaker_b
                               speaker_a_user_id speaker_b_user_id (map fst conv) tr1 of
                          (Inl e, tr2) \<Rightarrow> (Inl e, tr2)
                        | (Inr _, tr2) \<Rightarrow>
                            (Inr (), tr2 @ [Print ''Messages added successfully''])))))"

subsection \<open>\<^verbatim>\<open>process_all_conversations\<close>\<close>

text \<open>
  Truthiness of \<^verbatim>\<open>self.data\<close> (\<^verbatim>\<open>None\<close> and the empty array are false) and of
  \<^verbatim>\<open>max_samples\<close> (\<^verbatim>\<open>None\<close> and \<open>0\<close> are false).
\<close>

definition truthy_data :: "item list option \<Rightarrow> bool" where
  "truthy_data d = (case d of None \<Rightarrow> False | Some xs \<Rightarrow> xs \<noteq> [])"

definition truthy_int :: "int option \<Rightarrow> bool" where
  "truthy_int n = (case n of None \<Rightarrow> False | Some k \<Rightarrow> k \<noteq> 0)"

text \<open>
  The list comprehension that submits one task per record. A submitted task runs
  \<open>process_conversation\<close>; the model runs it when it is submitted, which is the schedule of
  a pool whose worker is free at each submission. A future keeps the task's result.
\<close>

fun submit_all ::
  "env \<Rightarrow> memobase_add \<Rightarrow> (nat \<times> item) list \<Rightarrow> trace \<Rightarrow> (exn + unit) list \<times> trace" where
  "submit_all en self [] tr = ([], tr)"
| "submit_all en self ((idx, itm) # rest) tr =
     (case process_conversation en self itm idx (tr @ [Submit idx itm]) of
        (r, tr1) \<Rightarrow>
          (case submit_all en self rest tr1 of
             (rs, tr2) \<Rightarrow> (r # rs, tr2)))"

text \<open>The loop \<^verbatim>\<open>for future in futures: future.result()\<close> raises the first stored exception.\<close>

fun collect_results :: "(exn + unit) list \<Rightarrow> exn + unit" where
  "collect_results [] = Inr ()"
| "collect_results (Inl e # rs) = Inl e"
| "collect_results (Inr _ # rs) = collect_results rs"

text \<open>
  The method returns its result, the object with \<^verbatim>\<open>self.data\<close> as the method leaves it,
  and the trace. \<^verbatim>\<open>ThreadPoolExecutor\<close> rejects a worker count that is not positive.
\<close>

definition process_all_conversations ::
  "env \<Rightarrow> memobase_add \<Rightarrow> int \<Rightarrow> int option \<Rightarrow> trace \<Rightarrow> (exn + unit) \<times> memobase_add \<times> trace" where
  "process_all_conversations en self max_workers max_samples tr =
     (if \<not> truthy_data (data self) then
        (Inl (ValueError ''No data loaded. Please set data_path and call load_data() first.''),
         self, tr)
      else if max_workers \<le> 0 then
        (Inl (ValueError ''max_workers must be greater than 0''), self, tr)
      else
        (let self' = (if truthy_int max_samples
                      then self\<lparr>data := Some (py_slice (the (data self)) 0 (the max_samples))\<rparr>
                      else self)
         in case submit_all en self' (enumerate 0 (the (data self'))) tr of
              (results, tr') \<Rightarrow> (collect_results results, self', tr')))"

section \<open>Observations of a trace\<close>

text \<open>
  The calls of one kind that a trace records, in order, and the predicates on events that the
  theorems below use to say what a run added to the trace.
\<close>

fun insert_call :: "event \<Rightarrow> (message list \<times> exn option) list" where
  "insert_call (Insert u m r) = [(m, r)]"
| "insert_call _ = []"

definition insert_calls :: "trace \<Rightarrow> (message list \<times> exn option) list" where
  "insert_calls tr = concat (map insert_call tr)"

definition sent_batches :: "trace \<Rightarrow> message list list" where
  "sent_batches tr = map fst (insert_calls tr)"

fun submit_call :: "event \<Rightarrow> (nat \<times> item) list" where
  "submit_call (Submit idx itm) = [(idx, itm)]"
| "submit_call _ = []"

definition submitted :: "trace \<Rightarrow> (nat \<times> item) list" where
  "submitted tr = concat (map submit_call tr)"

fun delete_call :: "event \<Rightarrow> (string \<times> exn option) list" where
  "delete_call (DeleteUser uid r) = [(uid, r)]"
| "delete_call _ = []"

definition delete_calls :: "trace \<Rightarrow> (string \<times> exn option) list" where
  "delete_calls tr = concat (map delete_call tr)"

fun is_upload :: "event \<Rightarrow> bool" where
  "is_upload (Insert u batch r) = True"
| "is_upload (Sleep n) = True"
| "is_upload _ = False"

fun is_flush :: "event \<Rightarrow> bool" where
  "is_flush (Flush u) = True"
| "is_flush _ = False"

fun is_snapshot :: "event \<Rightarrow> bool" where
  "is_snapshot (Profile u) = True"
| "is_snapshot (WriteFile path d) = True"
| "is_snapshot _ = False"

fun conv_event :: "(message \<Rightarrow> bool) \<Rightarrow> event \<Rightarrow> bool" where
  "conv_event P (Insert u batch r) = list_all P batch"
| "conv_event P (Submit idx itm) = False"
| "conv_event P _ = True"

definition extends :: "(message \<Rightarrow> bool) \<Rightarrow> trace \<Rightarrow> trace \<Rightarrow> bool" where
  "extends P tr tr' \<longleftrightarrow> (\<exists>evs. tr' = tr @ evs \<and> list_all (conv_event P) evs)"

definition user_role :: "message \<Rightarrow> bool" where
  "user_role m \<longleftrightarrow> role m = ''user''"

section \<open>Environments and inputs of the examples\<close>

text \<open>
  \<open>ok_env\<close> is a service on which every call succeeds; the other environments differ from
  it in one operation. The conversation of \<open>example_item\<close> is the end-to-end example:
  speakers A and B and one segment with a turn of each.
\<close>

definition ok_env :: env where
  "ok_env = \<lparr>uuid5_dns = (\<lambda>s. ''uuid-'' @ s),
            repr_turns = (\<lambda>cs. ''[...]''),
            remote_get_or_create_user = (\<lambda>tr uid. Inr \<lparr>user_id = uid\<rparr>),
            remote_insert = (\<lambda>tr u m. None),
            remote_flush = (\<lambda>tr u. None),
            remote_profile = (\<lambda>tr u. Inr ''{}''),
            remote_delete_user = (\<lambda>tr uid. None),
            os_makedirs = (\<lambda>tr p. None),
            write_json = (\<lambda>tr p d. None)\<rparr>"

definition timeout_error :: exn where
  "timeout_error = RemoteError ''timeout''"

definition flaky_env :: "nat \<Rightarrow> env" where
  "flaky_env n =
     ok_env\<lparr>remote_insert :=
              (\<lambda>tr u m. if length (insert_calls tr) < n then Some timeout_error else None)\<rparr>"

definition msg :: "string \<Rightarrow> message" where
  "msg s = \<lparr>role = ''user'', content = s, alias = Text ''A'', created_at = Text ''t1''\<rparr>"

definition alice_user :: user where
  "alice_user = \<lparr>user_id = ''uuid-A_0memobase_client''\<rparr>"

definition self0 :: memobase_add where
  "self0 = \<lparr>batch_size = 2, data = None\<rparr>"

definition example_conversation :: conversation where
  "example_conversation =
     [(''speaker_a'', Text ''A''), (''speaker_b'', Text ''B''),
      (''seg1'', Turns [\<lparr>speaker = ''A'', chat_text = ''hi''\<rparr>,
                        \<lparr>speaker = ''B'', chat_text = ''yo''\<rparr>]),
      (''seg1_date_time'', Text ''t1'')]"

definition example_item :: item where
  "example_item = [(''conversation'', example_conversation)]"

definition stranger_conversation :: conversation where
  "stranger_conversation =
     [(''speaker_a'', Text ''A''), (''speaker_b'', Text ''B''),
      (''seg1_date_time'', Text ''t1''),
      (''seg1'', Turns [\<lparr>speaker = ''A'', chat_text = ''hi''\<rparr>,
                        \<lparr>speaker = ''C'', chat_text = ''hey''\<rparr>,
                        \<lparr>speaker = ''B'', chat_text = ''yo''\<rparr>])]"

definition stranger_item :: item where
  "stranger_item = [(''conversation'', stranger_conversation)]"

definition delete_a_fails_env :: env where
  "delete_a_fails_env =
     ok_env\<lparr>remote_delete_user :=
              (\<lambda>tr uid. if uid = ''uuid-A_0memobase_client''
                         then Some (RemoteError ''user not found'') else None)\<rparr>"

definition profile_fails_env :: env where
  "profile_fails_env = ok_env\<lparr>remote_profile := (\<lambda>tr u. Inl (RemoteError ''no profile''))\<rparr>"

definition write_fails_env :: env where
  "write_fails_env = ok_env\<lparr>write_json := (\<lambda>tr path d. Some (OSError ''disk full''))\<rparr>"

definition flush_fails_env :: env where
  "flush_fails_env = ok_env\<lparr>remote_flush := (\<lambda>tr u. Some (RemoteError ''flush failed''))\<rparr>"

definition late_stranger_conversation :: conversation where
  "late_stranger_conversation =
     [(''speaker_a'', Text ''A''), (''speaker_b'', Text ''B''),
      (''seg1_date_time'', Text ''t1''),
      (''seg1'', Turns [\<lparr>speaker = ''A'', chat_text = ''hi''\<rparr>]),
      (''seg2_date_time'', Text ''t2''),
      (''seg2'', Turns [\<lparr>speaker = ''B'', chat_text = ''yo''\<rparr>,
                        \<lparr>speaker = ''C'', chat_text = ''hey''\<rparr>])]"

definition late_stranger_item :: item where
  "late_stranger_item = [(''conversation'', late_stranger_conversation)]"

definition seg1_trace :: trace where
  "seg1_trace =
     [DeleteUser ''uuid-A_0memobase_client'' None,
      DeleteUser ''uuid-B_0memobase_client'' None,
      GetOrCreateUser ''uuid-A_0memobase_client'',
      Insert \<lparr>user_id = ''uuid-A_0memobase_client''\<rparr>
        [\<lparr>role = ''user'', content = ''hi'', alias = Text ''A'', created_at = Text ''t1''\<rparr>] None,
      Flush \<lparr>user_id = ''uuid-A_0memobase_client''\<rparr>,
      Makedirs ''memobase_memories'',
      Profile \<lparr>user_id = ''uuid-A_0memobase_client''\<rparr>,
      WriteFile ''memobase_memories/uuid-A_0memobase_client.json'' ''{}'',
      Print ''Profile saved for user uuid-A_0memobase_client'',
      GetOrCreateUser ''uuid-B_0memobase_client'',
      Flush \<lparr>user_id = ''uuid-B_0memobase_client''\<rparr>,
      Makedirs ''memobase_memories'',
      Profile \<lparr>user_id = ''uuid-B_0memobase_client''\<rparr>,
      WriteFile ''memobase_memories/uuid-B_0memobase_client.json'' ''{}'',
      Print ''Profile saved for user uuid-B_0memobase_client'']"

definition self1 :: memobase_add where
  "self1 = \<lparr>batch_size = 1, data = None\<rparr>"

definition uploaded_trace :: trace where
  "uploaded_trace =
     [GetOrCreateUser ''uuid-A_0memobase_client'', Insert alice_user [msg ''hi''] None]"

definition three_records :: "item list" where
  "three_records = [example_item, stranger_item, late_stranger_item]"

section \<open>Facts about the primitives\<close>

lemma insert_calls_append [simp]: "insert_calls (a @ b) = insert_calls a @ insert_calls b"
  by (simp add: insert_calls_def)

lemma insert_calls_Nil [simp]: "insert_calls [] = []"
  by (simp add: insert_calls_def)

lemma insert_calls_Cons [simp]: "insert_calls (e # es) = insert_call e @ insert_calls es"
  by (simp add: insert_calls_def)

lemma py_range_3: "py_range 3 = [0, 1, 2]"
  by (simp add: py_range_def upto_rec1)

lemma py_slice_nonneg:
  assumes "0 \<le> i" and "0 \<le> j"
  shows "py_slice xs i j = take (nat j - nat i) (drop (nat i) xs)"
  using assms by (auto simp: py_slice_def slice_index_def Let_def min_def)

lemma py_slice_batch:
  "py_slice xs (int (k * b)) (int (k * b) + int b) = take b (drop (k * b) xs)"
proof -
  have "py_slice xs (int (k * b)) (int (k * b) + int b)
        = take (nat (int (k * b) + int b) - nat (int (k * b))) (drop (nat (int (k * b))) xs)"
    by (rule py_slice_nonneg) simp_all
  also have "nat (int (k * b) + int b) - nat (int (k * b)) = b"
    by (simp add: nat_add_distrib)
  finally show ?thesis by (simp flip: of_nat_mult)
qed

lemma ceil_div_less:
  assumes "0 < b"
  shows "k < (l + b - 1) div b \<longleftrightarrow> k * b < (l::nat)"
proof -
  have "k < (l + b - 1) div b \<longleftrightarrow> Suc k \<le> (l + b - 1) div b"
    by auto
  also have "\<dots> \<longleftrightarrow> Suc k * b \<le> l + b - 1"
    using assms by (simp only: less_eq_div_iff_mult_less_eq)
  also have "\<dots> \<longleftrightarrow> k * b < l"
    using assms by auto
  finally show ?thesis .
qed

lemma range_from_done: "0 < step \<Longrightarrow> stop \<le> i \<Longrightarrow> range_from i stop step = []"
  by (subst range_from.simps) simp

lemma range_from_next:
  "0 < step \<Longrightarrow> i < stop \<Longrightarrow> range_from i stop step = i # range_from (i + step) stop step"
  by (subst range_from.simps) simp

lemma range_from_batches:
  assumes "0 < b"
  shows "range_from (int (k * b)) (int l) (int b) = map (\<lambda>j. int (j * b)) [k..<(l + b - 1) div b]"
  using assms
proof (induction "(l + b - 1) div b - k" arbitrary: k)
  case 0
  then have "\<not> k < (l + b - 1) div b" by simp
  with 0 ceil_div_less[of b k l] have "\<not> k * b < l" by blast
  then have "int l \<le> int (k * b)" by (simp only: of_nat_le_iff not_less)
  with 0 show ?case by (simp add: range_from_done)
next
  case (Suc n)
  then have lt: "k < (l + b - 1) div b" by simp
  with Suc.prems ceil_div_less[of b k l] have "k * b < l" by blast
  then have "int (k * b) < int l" by (simp only: of_nat_less_iff)
  then have "range_from (int (k * b)) (int l) (int b)
             = int (k * b) # range_from (int (k * b) + int b) (int l) (int b)"
    using Suc.prems by (simp add: range_from_next)
  also have "int (k * b) + int b = int (Suc k * b)"
    by simp
  also have "range_from (int (Suc k * b)) (int l) (int b)
             = map (\<lambda>j. int (j * b)) [Suc k..<(l + b - 1) div b]"
    using Suc.hyps(2) Suc.prems by (intro Suc.hyps(1)) simp_all
  finally show ?case using lt by (simp add: upt_conv_Cons)
qed

lemma concat_batches: "concat (map (\<lambda>k. take b (drop (k * b) xs)) [0..<n]) = take (n * b) xs"
proof (induction n)
  case 0
  show ?case by simp
next
  case (Suc n)
  have "take (Suc n * b) xs = take (n * b + b) xs"
    by (simp add: add.commute)
  also have "\<dots> = take (n * b) xs @ take b (drop (n * b) xs)"
    by (rule take_add)
  finally show ?case using Suc by simp
qed

lemma ceil_real:
  assumes "0 < b"
  shows "nat \<lceil>real l / real b\<rceil> = (l + b - 1) div b"
proof -
  define n where "n = (l + b - 1) div b"
  have upper: "l \<le> n * b"
    using ceil_div_less[OF assms, of n l] by (simp add: n_def)
  have lower: "0 < n \<Longrightarrow> (n - 1) * b < l"
    using ceil_div_less[OF assms, of "n - 1" l] by (simp add: n_def)
  have "real l \<le> real (n * b)"
    using upper by (simp only: of_nat_le_iff)
  then have le: "real l / real b \<le> real n"
    using assms by (simp add: pos_divide_le_eq)
  have gt: "real n - 1 < real l / real b"
  proof (cases "0 < n")
    case True
    then have "real ((n - 1) * b) < real l"
      using lower by (simp only: of_nat_less_iff)
    moreover have "real ((n - 1) * b) = (real n - 1) * real b"
      using True by (simp add: of_nat_diff)
    ultimately show ?thesis
      using assms by (simp add: pos_less_divide_eq)
  next
    case False
    then have "real n - 1 < 0" by simp
    also have "0 \<le> real l / real b" by simp
    finally show ?thesis .
  qed
  have "\<lceil>real l / real b\<rceil> = int n"
    using le gt by (intro ceiling_unique) simp_all
  then show ?thesis by (simp add: n_def)
qed

section \<open>Uploads on a service that accepts every insert\<close>

lemma add_memory_first_try:
  "remote_insert en tr u m = None \<Longrightarrow>
   add_memory en u m default_retries tr = (Inr (), tr @ [Insert u m None])"
  by (simp add: add_memory_def default_retries_def py_range_3)

lemma upload_batches_all_ok:
  assumes "\<forall>t m. remote_insert en t u m = None"
  shows "upload_batches en self u messages idxs tr =
           (Inr (), tr @ map (\<lambda>i. Insert u (py_slice messages i (i + batch_size self)) None) idxs)"
  using assms
  by (induction idxs arbitrary: tr) (simp_all add: add_memory_first_try)

lemma insert_calls_save_profile [simp]:
  "insert_calls (save_profile en u tr) = insert_calls tr"
  by (simp add: save_profile_def Let_def split: sum.splits option.splits)

lemma save_profile_extends: "\<exists>evs. save_profile en u tr = tr @ evs"
  by (simp add: save_profile_def Let_def split: sum.splits option.splits)

lemma insert_calls_map_Insert:
  "insert_calls (map (\<lambda>i. Insert u (f i) None) idxs) = map (\<lambda>i. (f i, None)) idxs"
  by (induction idxs) simp_all

lemma add_memories_for_speaker_after_loop:
  assumes "remote_get_or_create_user en tr (string_to_uuid en speaker_id default_salt) = Inr u"
    and "py_range3 0 (int (length messages)) (batch_size self) = Inr idxs"
    and "upload_batches en self u messages idxs
           (tr @ [GetOrCreateUser (string_to_uuid en speaker_id default_salt)]) = (Inr (), tr2)"
  shows "add_memories_for_speaker en self speaker_id messages desc tr =
           (case remote_flush en tr2 u of
              Some e \<Rightarrow> (Inl e, tr2 @ [Flush u])
            | None \<Rightarrow>
                (case os_makedirs en (tr2 @ [Flush u]) ''memobase_memories'' of
                   Some e \<Rightarrow> (Inl e, tr2 @ [Flush u, Makedirs ''memobase_memories''])
                 | None \<Rightarrow>
                     (Inr (), save_profile en u (tr2 @ [Flush u, Makedirs ''memobase_memories'']))))"
  using assms by (simp add: add_memories_for_speaker_def Let_def split: option.splits)

lemma speaker_all_ok_trace:
  assumes B: "1 \<le> batch_size self"
    and usr: "remote_get_or_create_user en tr (string_to_uuid en speaker_id default_salt) = Inr u"
    and ok: "\<forall>t m. remote_insert en t u m = None"
  shows "\<exists>evs. snd (add_memories_for_speaker en self speaker_id messages desc tr) = tr @ evs \<and>
           insert_calls evs =
             map (\<lambda>k. (take (nat (batch_size self)) (drop (k * nat (batch_size self)) messages), None))
               [0..<(length messages + nat (batch_size self) - 1) div nat (batch_size self)]"
proof -
  define b where "b = nat (batch_size self)"
  define n where "n = (length messages + b - 1) div b"
  define g where "g = GetOrCreateUser (string_to_uuid en speaker_id default_salt)"
  define idxs where "idxs = map (\<lambda>j. int (j * b)) [0..<n]"
  define ins where "ins = map (\<lambda>i. Insert u (py_slice messages i (i + batch_size self)) None) idxs"
  have b: "0 < b" "batch_size self = int b"
    using B by (simp_all add: b_def)
  have "range_from 0 (int (length messages)) (int b) = idxs"
    using range_from_batches[OF b(1), of 0 "length messages"] by (simp add: n_def idxs_def)
  then have rng: "py_range3 0 (int (length messages)) (batch_size self) = Inr idxs"
    using b by (simp add: py_range3_def)
  have up: "upload_batches en self u messages idxs (tr @ [g]) = (Inr (), tr @ [g] @ ins)"
    unfolding ins_def using upload_batches_all_ok[OF ok] by simp
  note run = add_memories_for_speaker_after_loop[OF usr rng up[unfolded g_def], folded g_def]
  obtain sv where sv: "save_profile en u ((tr @ [g] @ ins) @ [Flush u, Makedirs ''memobase_memories''])
                       = ((tr @ [g] @ ins) @ [Flush u, Makedirs ''memobase_memories'']) @ sv"
    using save_profile_extends by blast
  have sv0: "insert_calls sv = []"
    using insert_calls_save_profile[of en u "(tr @ [g] @ ins) @ [Flush u, Makedirs ''memobase_memories'']"]
    unfolding sv by simp
  have "\<exists>tl. snd (add_memories_for_speaker en self speaker_id messages desc tr)
               = tr @ [g] @ ins @ tl \<and> insert_calls tl = []"
  proof (cases "remote_flush en (tr @ [g] @ ins) u")
    case (Some e)
    then show ?thesis
      by (intro exI[of _ "[Flush u]"]) (simp add: run)
  next
    case None
    show ?thesis
    proof (cases "os_makedirs en ((tr @ [g] @ ins) @ [Flush u]) ''memobase_memories''")
      case (Some e)
      then show ?thesis using None
        by (intro exI[of _ "[Flush u, Makedirs ''memobase_memories'']"]) (simp add: run)
    next
      case mk: None
      show ?thesis using None mk sv sv0
        by (intro exI[of _ "[Flush u, Makedirs ''memobase_memories''] @ sv"]) (simp add: run)
    qed
  qed
  then obtain tl where tl: "snd (add_memories_for_speaker en self speaker_id messages desc tr)
                        = tr @ [g] @ ins @ tl" "insert_calls tl = []"
    by blast
  have "insert_calls ins = map (\<lambda>k. (take b (drop (k * b) messages), None)) [0..<n]"
    unfolding ins_def idxs_def b(2)
    by (simp only: insert_calls_map_Insert map_map comp_def py_slice_batch)
  then show ?thesis
    unfolding b_def[symmetric] n_def[symmetric]
    using tl by (intro exI[of _ "g # ins @ tl"]) (simp add: g_def)
qed

lemma batch_length_le: "length (take b (drop (k * b) xs)) \<le> b"
  by simp

lemma batch_length_full:
  assumes "0 < b" and "Suc k < (length xs + b - 1) div b"
  shows "length (take b (drop (k * b) xs)) = b"
proof -
  have "Suc k * b < length xs"
    using ceil_div_less[OF assms(1), of "Suc k" "length xs"] assms(2) by blast
  then show ?thesis by simp
qed

lemma concat_all_batches:
  assumes "0 < b"
  shows "concat (map (\<lambda>k. take b (drop (k * b) xs)) [0..<(length xs + b - 1) div b]) = xs"
proof -
  have "\<not> (length xs + b - 1) div b * b < length xs"
    using ceil_div_less[OF assms, of "(length xs + b - 1) div b" "length xs"] by blast
  then show ?thesis by (simp add: concat_batches)
qed

section \<open>The splitter and the loop over the keys\<close>

lemma split_chats_known:
  assumes "\<forall>c \<in> set cs. Text (speaker c) = a \<or> Text (speaker c) = b"
  shows "split_chats a b ts cs ma mb =
           Inr (ma @ map (\<lambda>c. \<lparr>role = ''user'', content = chat_text c, alias = Text (speaker c),
                                 created_at = ts\<rparr>)
                       (filter (\<lambda>c. Text (speaker c) = a) cs),
                mb @ map (\<lambda>c. \<lparr>role = ''user'', content = chat_text c, alias = Text (speaker c),
                                 created_at = ts\<rparr>)
                       (filter (\<lambda>c. Text (speaker c) \<noteq> a) cs))"
  using assms
  by (induction cs arbitrary: ma mb) auto

lemma split_chats_ok_iff:
  "(\<exists>r. split_chats a b ts cs ma mb = Inr r) \<longleftrightarrow>
   (\<forall>c \<in> set cs. Text (speaker c) = a \<or> Text (speaker c) = b)"
  by (induction cs arbitrary: ma mb) auto

lemma split_chats_error:
  "split_chats a b ts cs ma mb = Inl e \<Longrightarrow>
   \<exists>c \<in> set cs. Text (speaker c) \<noteq> a \<and> Text (speaker c) \<noteq> b \<and>
               e = unknown_speaker (speaker c)"
  by (induction cs arbitrary: ma mb) (auto split: if_splits)

lemma process_keys_append:
  "process_keys en self conv a b ida idb (pre @ keys) tr =
     (case process_keys en self conv a b ida idb pre tr of
        (Inl e, t) \<Rightarrow> (Inl e, t)
      | (Inr _, t) \<Rightarrow> process_keys en self conv a b ida idb keys t)"
  by (induction pre arbitrary: tr) (auto simp: Let_def split: option.splits sum.splits prod.splits)

section \<open>What a run adds to the trace\<close>

lemma extends_refl [simp]: "extends P tr tr"
  by (simp add: extends_def)

lemma extends_trans: "extends P t1 t2 \<Longrightarrow> extends P t2 t3 \<Longrightarrow> extends P t1 t3"
  by (auto simp: extends_def)

lemma extends_snoc: "extends P t1 t2 \<Longrightarrow> list_all (conv_event P) evs \<Longrightarrow> extends P t1 (t2 @ evs)"
  by (auto simp: extends_def)

lemma extends_snoc0: "list_all (conv_event P) evs \<Longrightarrow> extends P t (t @ evs)"
  by (auto simp: extends_def)

lemma add_memory_loop_extends:
  "list_all P batch \<Longrightarrow> extends P tr (snd (add_memory_loop en u batch retries attempts tr))"
proof (induction attempts arbitrary: tr)
  case Nil
  show ?case by simp
next
  case (Cons a attempts)
  show ?case
  proof (cases "remote_insert en tr u batch")
    case None
    then show ?thesis using Cons.prems by (simp add: extends_snoc0)
  next
    case (Some e)
    have "extends P tr (tr @ [Insert u batch (Some e), Sleep 1])"
      using Cons.prems by (simp add: extends_snoc0)
    then have "extends P tr (snd (add_memory_loop en u batch retries attempts
                                     (tr @ [Insert u batch (Some e), Sleep 1])))"
      using Cons.IH[OF Cons.prems] extends_trans by blast
    then show ?thesis using Some Cons.prems by (simp add: extends_snoc0)
  qed
qed

lemma add_memory_extends:
  "list_all P batch \<Longrightarrow> extends P tr (snd (add_memory en u batch retries tr))"
  by (simp add: add_memory_def add_memory_loop_extends)

lemma set_py_slice: "set (py_slice xs i j) \<subseteq> set xs"
  unfolding py_slice_def Let_def
  by (meson set_take_subset set_drop_subset subset_trans)

lemma list_all_py_slice: "list_all P xs \<Longrightarrow> list_all P (py_slice xs i j)"
  using set_py_slice[of xs i j] by (auto simp: list_all_iff)

lemma upload_batches_extends:
  "list_all P messages \<Longrightarrow> extends P tr (snd (upload_batches en self u messages idxs tr))"
proof (induction idxs arbitrary: tr)
  case Nil
  show ?case by simp
next
  case (Cons i idxs)
  let ?b = "py_slice messages i (i + batch_size self)"
  obtain r t where am: "add_memory en u ?b default_retries tr = (r, t)"
    by (cases "add_memory en u ?b default_retries tr")
  have step: "extends P tr t"
    using add_memory_extends[of P ?b tr en u default_retries] Cons.prems am
    by (simp add: list_all_py_slice)
  show ?case
  proof (cases r)
    case (Inl e)
    then show ?thesis using am step by (simp add: Let_def)
  next
    case (Inr x)
    then show ?thesis
      using am extends_trans[OF step Cons.IH[OF Cons.prems, of t]] by (simp add: Let_def)
  qed
qed

lemma save_profile_extends_P: "extends P tr (save_profile en u tr)"
  by (auto simp: save_profile_def Let_def extends_def split: sum.splits option.splits)

lemma add_memories_for_speaker_extends:
  assumes "list_all P messages"
  shows "extends P tr (snd (add_memories_for_speaker en self speaker_id messages desc tr))"
proof -
  define g where "g = GetOrCreateUser (string_to_uuid en speaker_id default_salt)"
  have g: "extends P tr (tr @ [g])"
    by (simp add: extends_snoc0 g_def)
  show ?thesis
  proof (cases "remote_get_or_create_user en tr (string_to_uuid en speaker_id default_salt)")
    case (Inl e)
    then show ?thesis using g by (simp add: add_memories_for_speaker_def Let_def g_def)
  next
    case usr: (Inr u)
    show ?thesis
    proof (cases "py_range3 0 (int (length messages)) (batch_size self)")
      case (Inl e)
      then show ?thesis using g usr by (simp add: add_memories_for_speaker_def Let_def g_def)
    next
      case rng: (Inr idxs)
      obtain r t where up: "upload_batches en self u messages idxs (tr @ [g]) = (r, t)"
        by (cases "upload_batches en self u messages idxs (tr @ [g])")
      have t: "extends P tr t"
        using extends_trans[OF g upload_batches_extends[OF assms, of "tr @ [g]" en self u idxs]] up
        by simp
      show ?thesis
      proof (cases r)
        case (Inl e)
        then show ?thesis using usr rng up t
          by (simp add: add_memories_for_speaker_def Let_def g_def)
      next
        case (Inr x)
        have up': "upload_batches en self u messages idxs
                     (tr @ [GetOrCreateUser (string_to_uuid en speaker_id default_salt)]) = (Inr (), t)"
          using up Inr by (simp add: g_def)
        have "extends P tr (save_profile en u (t @ [Flush u, Makedirs ''memobase_memories'']))"
          using extends_trans[OF extends_snoc[OF t] save_profile_extends_P] by simp
        moreover have "extends P tr (t @ [Flush u])" "extends P tr (t @ [Flush u, Makedirs ''memobase_memories''])"
          using extends_snoc[OF t] by simp_all
        ultimately show ?thesis
          by (simp add: add_memories_for_speaker_after_loop[OF usr rng up'] split: option.splits)
      qed
    qed
  qed
qed

lemma run_thread_extends:
  assumes "list_all P messages"
  shows "extends P tr (run_thread en self speaker_id messages desc tr)"
proof -
  obtain r t where am: "add_memories_for_speaker en self speaker_id messages desc tr = (r, t)"
    by (cases "add_memories_for_speaker en self speaker_id messages desc tr")
  then have "extends P tr t"
    using add_memories_for_speaker_extends[OF assms, of tr en self speaker_id desc] by simp
  then show ?thesis
    using am extends_snoc[of P tr t] by (cases r) (simp_all add: run_thread_def)
qed

lemma delete_users_extends: "extends P tr (delete_users en ida idb tr)"
  by (auto simp: delete_users_def Let_def extends_def split: option.splits)

lemma split_chats_roles:
  "split_chats a b ts cs ma mb = Inr (ra, rb) \<Longrightarrow> list_all user_role ma \<Longrightarrow> list_all user_role mb \<Longrightarrow>
   list_all user_role ra \<and> list_all user_role rb"
  by (induction cs arbitrary: ma mb) (auto simp: user_role_def split: if_splits)

lemma split_segment_roles:
  "split_segment a b ts chats = Inr (ra, rb) \<Longrightarrow> list_all user_role ra \<and> list_all user_role rb"
  by (cases chats) (auto simp: split_segment_def dest: split_chats_roles split: if_splits)

lemma process_keys_extends:
  "extends user_role tr (snd (process_keys en self conv a b ida idb keys tr))"
proof (induction keys arbitrary: tr)
  case Nil
  show ?case by simp
next
  case (Cons key keys)
  show ?case
  proof (cases "skipped_key key")
    case True
    then show ?thesis using Cons.IH by simp
  next
    case False
    show ?thesis
    proof (cases "map_of conv (key @ ''_date_time'')")
      case None
      then show ?thesis using False by simp
    next
      case ts: (Some timestamp)
      show ?thesis
      proof (cases "map_of conv key")
        case None
        then show ?thesis using False ts by simp
      next
        case ch: (Some chats)
        show ?thesis
        proof (cases "split_segment a b timestamp chats")
          case (Inl e)
          then show ?thesis using False ts ch by simp
        next
          case (Inr p)
          obtain ra rb where p: "p = (ra, rb)" by (cases p)
          have roles: "list_all user_role ra" "list_all user_role rb"
            using split_segment_roles Inr p by blast+
          define t1 where "t1 = run_thread en self ida ra ''Adding Memories for Speaker A'' tr"
          define t2 where "t2 = run_thread en self idb rb ''Adding Memories for Speaker B'' t1"
          have "extends user_role tr t1"
            unfolding t1_def by (rule run_thread_extends[OF roles(1)])
          moreover have "extends user_role t1 t2"
            unfolding t2_def by (rule run_thread_extends[OF roles(2)])
          ultimately have "extends user_role tr (snd (process_keys en self conv a b ida idb keys t2))"
            using Cons.IH[of t2] extends_trans by blast
          then show ?thesis
            using False ts ch Inr p by (simp add: Let_def t1_def t2_def)
        qed
      qed
    qed
  qed
qed

lemma process_conversation_extends:
  "extends user_role tr (snd (process_conversation en self itm idx tr))"
proof -
  have "extends user_role tr
          (snd (process_keys en self conv a b ida idb keys (delete_users en ida idb tr)))"
    for conv a b ida idb keys
    using extends_trans[OF delete_users_extends process_keys_extends] .
  then show ?thesis
    by (auto simp: process_conversation_def Let_def extends_snoc
             split: option.splits prod.splits sum.splits
             dest!: arg_cong[where f = snd] )
qed

lemma split_segment_Text_no_ValueError: "split_segment a b ts (Text s) \<noteq> Inl (unknown_speaker m)"
  by (simp add: split_segment_def unknown_speaker_def)

lemma split_segment_Turns: "split_segment a b ts (Turns cs) = split_chats a b ts cs [] []"
  by (simp add: split_segment_def)

lemma split_segment_unknown_iff:
  "(\<exists>s. split_segment a b ts chats = Inl (unknown_speaker s)) \<longleftrightarrow>
   (\<exists>cs. chats = Turns cs \<and> (\<exists>c \<in> set cs. Text (speaker c) \<noteq> a \<and> Text (speaker c) \<noteq> b))"
proof (cases chats)
  case (Text s)
  have "\<not> (\<exists>m. split_segment a b ts chats = Inl (unknown_speaker m))"
    unfolding Text using split_segment_Text_no_ValueError by blast
  moreover have "\<not> (\<exists>cs. chats = Turns cs \<and> (\<exists>c \<in> set cs. Text (speaker c) \<noteq> a \<and> Text (speaker c) \<noteq> b))"
    unfolding Text by simp
  ultimately show ?thesis by blast
next
  case (Turns cs)
  have eq: "split_segment a b ts chats = split_chats a b ts cs [] []"
    unfolding Turns by (rule split_segment_Turns)
  show ?thesis
  proof
    assume "\<exists>s. split_segment a b ts chats = Inl (unknown_speaker s)"
    then obtain e where "split_chats a b ts cs [] [] = Inl e"
      unfolding eq by blast
    then have "\<exists>c \<in> set cs. Text (speaker c) \<noteq> a \<and> Text (speaker c) \<noteq> b"
      using split_chats_error by blast
    then show "\<exists>cs. chats = Turns cs \<and> (\<exists>c \<in> set cs. Text (speaker c) \<noteq> a \<and> Text (speaker c) \<noteq> b)"
      using Turns by blast
  next
    assume "\<exists>cs. chats = Turns cs \<and> (\<exists>c \<in> set cs. Text (speaker c) \<noteq> a \<and> Text (speaker c) \<noteq> b)"
    then have "\<not> (\<forall>c \<in> set cs. Text (speaker c) = a \<or> Text (speaker c) = b)"
      unfolding Turns by blast
    then have "\<not> (\<exists>r. split_chats a b ts cs [] [] = Inr r)"
      using split_chats_ok_iff[of a b ts cs "[]" "[]"] by blast
    then obtain e where e: "split_chats a b ts cs [] [] = Inl e"
      by (cases "split_chats a b ts cs [] []") blast+
    then have "\<exists>s. e = unknown_speaker s"
      using split_chats_error by blast
    then show "\<exists>s. split_segment a b ts chats = Inl (unknown_speaker s)"
      unfolding eq e by blast
  qed
qed

lemma process_keys_unknown:
  assumes "\<not> skipped_key key"
    and "map_of conv (key @ ''_date_time'') = Some ts"
    and "map_of conv key = Some chats"
    and "split_segment a b ts chats = Inl e"
  shows "process_keys en self conv a b ida idb (key # keys) tr = (Inl e, tr)"
  using assms by (simp add: Let_def)

lemma add_memory_loop_uploads:
  "\<exists>evs. snd (add_memory_loop en u batch retries attempts tr) = tr @ evs \<and> list_all is_upload evs"
proof (induction attempts arbitrary: tr)
  case Nil
  show ?case by simp
next
  case (Cons a attempts)
  show ?case
  proof (cases "remote_insert en tr u batch")
    case None
    then show ?thesis by simp
  next
    case (Some e)
    obtain evs where evs: "snd (add_memory_loop en u batch retries attempts
                                  (tr @ [Insert u batch (Some e), Sleep 1]))
                           = (tr @ [Insert u batch (Some e), Sleep 1]) @ evs" "list_all is_upload evs"
      using Cons.IH by blast
    show ?thesis
    proof (cases "a < retries - 1")
      case True
      then show ?thesis using Some evs
        by (intro exI[of _ "[Insert u batch (Some e), Sleep 1] @ evs"]) simp
    next
      case False
      then show ?thesis using Some by simp
    qed
  qed
qed

lemma upload_batches_uploads:
  "\<exists>evs. snd (upload_batches en self u messages idxs tr) = tr @ evs \<and> list_all is_upload evs"
proof (induction idxs arbitrary: tr)
  case Nil
  show ?case by simp
next
  case (Cons i idxs)
  let ?b = "py_slice messages i (i + batch_size self)"
  obtain r t where am: "add_memory en u ?b default_retries tr = (r, t)"
    by (cases "add_memory en u ?b default_retries tr")
  obtain e1 where e1: "t = tr @ e1" "list_all is_upload e1"
    using add_memory_loop_uploads[of en u ?b default_retries "py_range default_retries" tr] am
    by (auto simp: add_memory_def)
  show ?case
  proof (cases r)
    case (Inl e)
    then show ?thesis using am e1 by (simp add: Let_def)
  next
    case (Inr x)
    obtain e2 where e2: "snd (upload_batches en self u messages idxs t) = t @ e2" "list_all is_upload e2"
      using Cons.IH by blast
    show ?thesis using Inr am e1 e2
      by (intro exI[of _ "e1 @ e2"]) (simp add: Let_def)
  qed
qed

lemma submitted_append [simp]: "submitted (a @ b) = submitted a @ submitted b"
  by (simp add: submitted_def)

lemma submitted_conv_events: "list_all (conv_event P) evs \<Longrightarrow> submitted evs = []"
proof (induction evs)
  case Nil
  show ?case by (simp add: submitted_def)
next
  case (Cons e evs)
  then show ?case by (cases e) (simp_all add: submitted_def)
qed

lemma submitted_extends: "extends P tr tr' \<Longrightarrow> submitted tr' = submitted tr"
  by (auto simp: extends_def submitted_conv_events)

lemma sent_conv_events:
  "list_all (conv_event P) evs \<Longrightarrow> \<forall>batch \<in> set (sent_batches evs). list_all P batch"
proof (induction evs)
  case Nil
  show ?case by (simp add: sent_batches_def)
next
  case (Cons e evs)
  then show ?case by (cases e) (simp_all add: sent_batches_def)
qed

lemma submit_all_submitted:
  "submitted (snd (submit_all en self tasks tr)) = submitted tr @ tasks"
proof (induction tasks arbitrary: tr)
  case Nil
  show ?case by simp
next
  case (Cons task tasks)
  obtain idx itm where task: "task = (idx, itm)" by (cases task)
  obtain r t where pc: "process_conversation en self itm idx (tr @ [Submit idx itm]) = (r, t)"
    by (cases "process_conversation en self itm idx (tr @ [Submit idx itm])")
  have "submitted t = submitted (tr @ [Submit idx itm])"
    using submitted_extends[OF process_conversation_extends, of en self itm idx "tr @ [Submit idx itm]"] pc
    by simp
  then have t: "submitted t = submitted tr @ [(idx, itm)]"
    by (simp add: submitted_def)
  obtain rs t2 where sa: "submit_all en self tasks t = (rs, t2)"
    by (cases "submit_all en self tasks t")
  then have "submitted t2 = submitted t @ tasks"
    using Cons.IH[of t] by simp
  then show ?case using task pc sa t by simp
qed

lemma py_slice_prefix: "0 \<le> n \<Longrightarrow> py_slice xs 0 n = take (nat n) xs"
  by (simp add: py_slice_nonneg)

section \<open>Runs of the examples\<close>

lemma third_attempt_succeeds:
  "add_memory (flaky_env 2) alice_user [msg ''hi''] default_retries [] =
     (Inr (), [Insert alice_user [msg ''hi''] (Some timeout_error), Sleep 1,
               Insert alice_user [msg ''hi''] (Some timeout_error), Sleep 1,
               Insert alice_user [msg ''hi''] None])"
  by code_simp

lemma all_attempts_fail:
  "add_memory (flaky_env 3) alice_user [msg ''hi''] default_retries [] =
     (Inl timeout_error,
      [Insert alice_user [msg ''hi''] (Some timeout_error), Sleep 1,
       Insert alice_user [msg ''hi''] (Some timeout_error), Sleep 1,
       Insert alice_user [msg ''hi''] (Some timeout_error)])"
  by code_simp

lemma example_split:
  "split_segment (Text ''A'') (Text ''B'') (Text ''t1'')
       (Turns [\<lparr>speaker = ''A'', chat_text = ''hi''\<rparr>, \<lparr>speaker = ''B'', chat_text = ''yo''\<rparr>]) =
     Inr ([\<lparr>role = ''user'', content = ''hi'', alias = Text ''A'', created_at = Text ''t1''\<rparr>],
          [\<lparr>role = ''user'', content = ''yo'', alias = Text ''B'', created_at = Text ''t1''\<rparr>])"
  by code_simp

lemma example_sent:
  "sent_batches (snd (process_conversation ok_env self0 example_item 0 [])) =
     [[\<lparr>role = ''user'', content = ''hi'', alias = Text ''A'', created_at = Text ''t1''\<rparr>],
      [\<lparr>role = ''user'', content = ''yo'', alias = Text ''B'', created_at = Text ''t1''\<rparr>]]"
  by code_simp

section \<open>The claims\<close>

text \<open>
  Claim C1, with the hypothesis that the code needs. For every message sequence of length
  \<open>L\<close> and every batch size \<open>B \<ge> 1\<close>, when the user session is obtained and every insert
  call succeeds, \<open>add_memories_for_speaker\<close> issues exactly \<open>\<lceil>L / B\<rceil>\<close> insert calls, in
  order; the \<open>k\<close>-th call sends the slice \<^verbatim>\<open>messages[k*B : (k+1)*B]\<close>, so every batch has at
  most \<open>B\<close> messages, every batch but the last has exactly \<open>B\<close>, the \<open>j\<close>-th message of the
  \<open>k\<close>-th batch is the message at position \<open>k * B + j\<close> (batches do not overlap), and the
  batches concatenated are the original sequence.
\<close>

theorem batching_when_inserts_succeed:
  assumes B: "1 \<le> batch_size self"
    and usr: "remote_get_or_create_user en tr (string_to_uuid en speaker_id default_salt) = Inr u"
    and ok: "\<forall>t m. remote_insert en t u m = None"
  shows "\<exists>evs. snd (add_memories_for_speaker en self speaker_id messages desc tr) = tr @ evs \<and>
           length (insert_calls evs) = nat \<lceil>real (length messages) / real_of_int (batch_size self)\<rceil> \<and>
           (\<forall>k < length (sent_batches evs).
              sent_batches evs ! k =
                py_slice messages (int k * batch_size self) ((int k + 1) * batch_size self)) \<and>
           (\<forall>bt \<in> set (sent_batches evs). int (length bt) \<le> batch_size self) \<and>
           (\<forall>k. Suc k < length (sent_batches evs) \<longrightarrow>
              int (length (sent_batches evs ! k)) = batch_size self) \<and>
           (\<forall>k < length (sent_batches evs). \<forall>j < length (sent_batches evs ! k).
              sent_batches evs ! k ! j = messages ! (k * nat (batch_size self) + j)) \<and>
           concat (sent_batches evs) = messages"
proof -
  define b where "b = nat (batch_size self)"
  define n where "n = (length messages + b - 1) div b"
  have b: "0 < b" "batch_size self = int b"
    using B by (simp_all add: b_def)
  obtain evs where evs: "snd (add_memories_for_speaker en self speaker_id messages desc tr) = tr @ evs"
    and calls: "insert_calls evs = map (\<lambda>k. (take b (drop (k * b) messages), None)) [0..<n]"
    using speaker_all_ok_trace[OF B usr ok, of messages desc] unfolding b_def n_def by blast
  have sb: "sent_batches evs = map (\<lambda>k. take b (drop (k * b) messages)) [0..<n]"
    by (simp add: sent_batches_def calls comp_def)
  have len: "length (insert_calls evs) = nat \<lceil>real (length messages) / real_of_int (batch_size self)\<rceil>"
    using ceil_real[OF b(1), of "length messages"] by (simp add: calls n_def b(2))
  have slice: "\<forall>k < length (sent_batches evs).
      sent_batches evs ! k = py_slice messages (int k * batch_size self) ((int k + 1) * batch_size self)"
  proof (intro allI impI)
    fix k assume "k < length (sent_batches evs)"
    then have "sent_batches evs ! k = take b (drop (k * b) messages)"
      by (simp add: sb)
    also have "\<dots> = py_slice messages (int (k * b)) (int (k * b) + int b)"
      by (simp only: py_slice_batch)
    also have "int (k * b) + int b = (int k + 1) * int b"
      by (simp add: algebra_simps)
    finally show "sent_batches evs ! k =
        py_slice messages (int k * batch_size self) ((int k + 1) * batch_size self)"
      by (simp add: b(2))
  qed
  have size: "\<forall>bt \<in> set (sent_batches evs). int (length bt) \<le> batch_size self"
    by (auto simp: sb b(2))
  have full: "\<forall>k. Suc k < length (sent_batches evs) \<longrightarrow>
      int (length (sent_batches evs ! k)) = batch_size self"
  proof (intro allI impI)
    fix k assume k: "Suc k < length (sent_batches evs)"
    then have "Suc k < (length messages + b - 1) div b"
      by (simp add: sb n_def)
    then have "length (take b (drop (k * b) messages)) = b"
      by (rule batch_length_full[OF b(1)])
    moreover have "sent_batches evs ! k = take b (drop (k * b) messages)"
      using k by (simp add: sb)
    ultimately show "int (length (sent_batches evs ! k)) = batch_size self"
      by (simp only: b(2))
  qed
  have pos: "\<forall>k < length (sent_batches evs). \<forall>j < length (sent_batches evs ! k).
      sent_batches evs ! k ! j = messages ! (k * nat (batch_size self) + j)"
    by (auto simp: sb b(2))
  have cat: "concat (sent_batches evs) = messages"
    unfolding sb n_def by (rule concat_all_batches[OF b(1)])
  from evs len slice size full pos cat show ?thesis by blast
qed

text \<open>
  Three messages with the default batch size 2 are sent as a batch of two and a batch of one.
\<close>

theorem batching_when_inserts_succeed_witness:
  "1 \<le> batch_size self0 \<and>
   remote_get_or_create_user ok_env [] (string_to_uuid ok_env ''A_0'' default_salt) = Inr alice_user \<and>
   (\<forall>t m. remote_insert ok_env t alice_user m = None) \<and>
   (\<exists>evs. snd (add_memories_for_speaker ok_env self0 ''A_0'' [msg ''a'', msg ''b'', msg ''c''] ''desc'' [])
            = [] @ evs \<and>
          length (insert_calls evs) = 2 \<and>
          concat (sent_batches evs) = [msg ''a'', msg ''b'', msg ''c'']) \<and>
   sent_batches (snd (add_memories_for_speaker ok_env self0 ''A_0'' [msg ''a'', msg ''b'', msg ''c''] ''desc'' []))
     = [[msg ''a'', msg ''b''], [msg ''c'']]"
proof -
  have B: "1 \<le> batch_size self0"
    by (simp add: self0_def)
  have usr: "remote_get_or_create_user ok_env [] (string_to_uuid ok_env ''A_0'' default_salt) = Inr alice_user"
    by code_simp
  have ok: "\<forall>t m. remote_insert ok_env t alice_user m = None"
    by (simp add: ok_env_def)
  have two: "nat \<lceil>real (length [msg ''a'', msg ''b'', msg ''c'']) / real_of_int (batch_size self0)\<rceil> = 2"
    by (simp add: self0_def)
  have conc: "sent_batches (snd (add_memories_for_speaker ok_env self0 ''A_0''
                [msg ''a'', msg ''b'', msg ''c''] ''desc'' []))
     = [[msg ''a'', msg ''b''], [msg ''c'']]"
    by code_simp
  from batching_when_inserts_succeed[OF B usr ok, of "[msg ''a'', msg ''b'', msg ''c'']" "''desc''"]
  obtain evs where "snd (add_memories_for_speaker ok_env self0 ''A_0''
                [msg ''a'', msg ''b'', msg ''c''] ''desc'' []) = [] @ evs"
    and "length (insert_calls evs) =
       nat \<lceil>real (length [msg ''a'', msg ''b'', msg ''c'']) / real_of_int (batch_size self0)\<rceil>"
    and "concat (sent_batches evs) = [msg ''a'', msg ''b'', msg ''c'']"
    by (elim exE conjE)
  then have "\<exists>evs. snd (add_memories_for_speaker ok_env self0 ''A_0''
                [msg ''a'', msg ''b'', msg ''c''] ''desc'' []) = [] @ evs \<and>
          length (insert_calls evs) = 2 \<and>
          concat (sent_batches evs) = [msg ''a'', msg ''b'', msg ''c'']"
    unfolding two by (intro exI conjI)
  with B usr ok conc show ?thesis
    by (intro conjI)
qed

text \<open>
  Without that hypothesis the count of claim C1 fails: one message with batch size 1, sent
  to a service whose first insert fails, takes two insert calls and not \<open>\<lceil>1 / 1\<rceil> = 1\<close>.
\<close>

theorem retried_insert_counterexample:
  "length (insert_calls (snd (add_memories_for_speaker (flaky_env 1) self1 ''A_0'' [msg ''hi''] ''desc'' [])))
   \<noteq> nat \<lceil>real (length [msg ''hi'']) / real_of_int (batch_size self1)\<rceil>"
proof -
  have calls: "length (insert_calls (snd (add_memories_for_speaker (flaky_env 1) self1 ''A_0''
                  [msg ''hi''] ''desc'' []))) = 2"
    by code_simp
  have ceil: "nat \<lceil>real (length [msg ''hi'']) / real_of_int (batch_size self1)\<rceil> = 1"
    by (simp add: self1_def)
  show ?thesis unfolding calls ceil by simp
qed

text \<open>
  Claim C2. With the default budget of three attempts, \<open>add_memory\<close> calls the remote insert
  at most three times, every time with the same batch. When it returns normally, the last
  event is the one successful insert and every insert before it failed, so the batch is
  accepted exactly once. An insert that fails twice and succeeds on the third attempt makes
  exactly three insert calls, one of them successful. When all three attempts fail, the
  exception of the third attempt is raised to the caller.
\<close>

theorem add_memory_retry_budget:
  assumes run: "add_memory en u batch default_retries tr = (res, tr')"
  shows "\<exists>evs. tr' = tr @ evs \<and>
           length (insert_calls evs) \<le> 3 \<and>
           (\<forall>c \<in> set (insert_calls evs). fst c = batch) \<and>
           (res = Inr () \<longrightarrow>
              (\<exists>failed. insert_calls evs = failed @ [(batch, None)] \<and>
                        (\<forall>c \<in> set failed. snd c \<noteq> None)) \<and>
              last evs = Insert u batch None) \<and>
           (\<forall>e1 e2.
              remote_insert en tr u batch = Some e1 \<longrightarrow>
              remote_insert en (tr @ [Insert u batch (Some e1), Sleep 1]) u batch = Some e2 \<longrightarrow>
              remote_insert en (tr @ [Insert u batch (Some e1), Sleep 1,
                                      Insert u batch (Some e2), Sleep 1]) u batch = None \<longrightarrow>
              res = Inr () \<and>
              insert_calls evs = [(batch, Some e1), (batch, Some e2), (batch, None)]) \<and>
           (\<forall>e1 e2 e3.
              remote_insert en tr u batch = Some e1 \<longrightarrow>
              remote_insert en (tr @ [Insert u batch (Some e1), Sleep 1]) u batch = Some e2 \<longrightarrow>
              remote_insert en (tr @ [Insert u batch (Some e1), Sleep 1,
                                      Insert u batch (Some e2), Sleep 1]) u batch = Some e3 \<longrightarrow>
              res = Inl e3 \<and>
              insert_calls evs = [(batch, Some e1), (batch, Some e2), (batch, Some e3)]) \<and>
           (\<forall>e. res = Inl e \<longrightarrow>
              (\<exists>e1 e2. insert_calls evs = [(batch, Some e1), (batch, Some e2), (batch, Some e)]) \<and>
              last evs = Insert u batch (Some e))"
  using run
  by (auto simp: add_memory_def default_retries_def py_range_3 split: option.splits)

text \<open>
  A service that fails twice and then accepts, and a service that fails three times.
\<close>

theorem add_memory_retry_budget_witness:
  "add_memory (flaky_env 2) alice_user [msg ''hi''] default_retries [] =
     (Inr (), [Insert alice_user [msg ''hi''] (Some timeout_error), Sleep 1,
               Insert alice_user [msg ''hi''] (Some timeout_error), Sleep 1,
               Insert alice_user [msg ''hi''] None]) \<and>
   remote_insert (flaky_env 2) [] alice_user [msg ''hi''] = Some timeout_error \<and>
   remote_insert (flaky_env 2) ([] @ [Insert alice_user [msg ''hi''] (Some timeout_error), Sleep 1])
     alice_user [msg ''hi''] = Some timeout_error \<and>
   remote_insert (flaky_env 2)
     ([] @ [Insert alice_user [msg ''hi''] (Some timeout_error), Sleep 1,
            Insert alice_user [msg ''hi''] (Some timeout_error), Sleep 1])
     alice_user [msg ''hi''] = None \<and>
   (\<exists>evs. [Insert alice_user [msg ''hi''] (Some timeout_error), Sleep 1,
           Insert alice_user [msg ''hi''] (Some timeout_error), Sleep 1,
           Insert alice_user [msg ''hi''] None] = [] @ evs \<and>
          insert_calls evs = [([msg ''hi''], Some timeout_error), ([msg ''hi''], Some timeout_error),
                              ([msg ''hi''], None)]) \<and>
   add_memory (flaky_env 3) alice_user [msg ''hi''] default_retries [] =
     (Inl timeout_error,
      [Insert alice_user [msg ''hi''] (Some timeout_error), Sleep 1,
       Insert alice_user [msg ''hi''] (Some timeout_error), Sleep 1,
       Insert alice_user [msg ''hi''] (Some timeout_error)]) \<and>
   (\<exists>evs. [Insert alice_user [msg ''hi''] (Some timeout_error), Sleep 1,
           Insert alice_user [msg ''hi''] (Some timeout_error), Sleep 1,
           Insert alice_user [msg ''hi''] (Some timeout_error)] = [] @ evs \<and>
          (\<exists>e1 e2. insert_calls evs = [([msg ''hi''], Some e1), ([msg ''hi''], Some e2),
                                       ([msg ''hi''], Some timeout_error)]))"
proof -
  have r1: "remote_insert (flaky_env 2) [] alice_user [msg ''hi''] = Some timeout_error"
    by code_simp
  have r2: "remote_insert (flaky_env 2) ([] @ [Insert alice_user [msg ''hi''] (Some timeout_error), Sleep 1])
     alice_user [msg ''hi''] = Some timeout_error"
    by code_simp
  have r3: "remote_insert (flaky_env 2)
     ([] @ [Insert alice_user [msg ''hi''] (Some timeout_error), Sleep 1,
            Insert alice_user [msg ''hi''] (Some timeout_error), Sleep 1])
     alice_user [msg ''hi''] = None"
    by code_simp
  from add_memory_retry_budget[OF third_attempt_succeeds]
  obtain evs where evs: "[Insert alice_user [msg ''hi''] (Some timeout_error), Sleep 1,
           Insert alice_user [msg ''hi''] (Some timeout_error), Sleep 1,
           Insert alice_user [msg ''hi''] None] = [] @ evs"
    and scenario: "\<forall>e1 e2.
              remote_insert (flaky_env 2) [] alice_user [msg ''hi''] = Some e1 \<longrightarrow>
              remote_insert (flaky_env 2) ([] @ [Insert alice_user [msg ''hi''] (Some e1), Sleep 1])
                alice_user [msg ''hi''] = Some e2 \<longrightarrow>
              remote_insert (flaky_env 2) ([] @ [Insert alice_user [msg ''hi''] (Some e1), Sleep 1,
                                      Insert alice_user [msg ''hi''] (Some e2), Sleep 1])
                alice_user [msg ''hi''] = None \<longrightarrow>
              (Inr () :: exn + unit) = Inr () \<and>
              insert_calls evs = [([msg ''hi''], Some e1), ([msg ''hi''], Some e2), ([msg ''hi''], None)]"
    by (elim exE conjE)
  have calls: "insert_calls evs = [([msg ''hi''], Some timeout_error), ([msg ''hi''], Some timeout_error),
                              ([msg ''hi''], None)]"
    using scenario[rule_format, OF r1 r2 r3] by (rule conjunct2)
  from add_memory_retry_budget[OF all_attempts_fail]
  obtain evs' where evs': "[Insert alice_user [msg ''hi''] (Some timeout_error), Sleep 1,
           Insert alice_user [msg ''hi''] (Some timeout_error), Sleep 1,
           Insert alice_user [msg ''hi''] (Some timeout_error)] = [] @ evs'"
    and raised: "\<forall>e. (Inl timeout_error :: exn + unit) = Inl e \<longrightarrow>
              (\<exists>e1 e2. insert_calls evs' = [([msg ''hi''], Some e1), ([msg ''hi''], Some e2),
                                            ([msg ''hi''], Some e)]) \<and>
              last evs' = Insert alice_user [msg ''hi''] (Some e)"
    by (elim exE conjE)
  have calls': "\<exists>e1 e2. insert_calls evs' = [([msg ''hi''], Some e1), ([msg ''hi''], Some e2),
                                       ([msg ''hi''], Some timeout_error)]"
    using raised[rule_format, of timeout_error, OF refl] by (rule conjunct1)
  show ?thesis
    using third_attempt_succeeds r1 r2 r3 evs calls all_attempts_fail evs' calls'
    by (intro conjI exI[of _ evs] exI[of _ evs'])
qed

text \<open>
  Claim C3. For a segment whose turns all carry the label of speaker A or of speaker B, the
  splitter puts the turns labelled A, in their original order, in the sequence of speaker A
  and all the other turns, which are labelled B, in their original order, in the sequence
  of speaker B. Every message has the turn's text as content, the turn's speaker label as
  alias and the segment's \<^verbatim>\<open>_date_time\<close> field as \<open>created_at\<close>. The first sequence is
  uploaded for the identity of speaker A and the second for the identity of speaker B.
\<close>

theorem splitter_assigns_each_turn:
  assumes known: "\<forall>c \<in> set cs. Text (speaker c) = speaker_a \<or> Text (speaker c) = speaker_b"
    and key: "\<not> skipped_key key"
    and stamp: "map_of conv (key @ ''_date_time'') = Some timestamp"
    and seg: "map_of conv key = Some (Turns cs)"
  shows "split_segment speaker_a speaker_b timestamp (Turns cs) =
           Inr (map (\<lambda>c. \<lparr>role = ''user'', content = chat_text c, alias = Text (speaker c),
                            created_at = timestamp\<rparr>)
                  (filter (\<lambda>c. Text (speaker c) = speaker_a) cs),
                map (\<lambda>c. \<lparr>role = ''user'', content = chat_text c, alias = Text (speaker c),
                            created_at = timestamp\<rparr>)
                  (filter (\<lambda>c. Text (speaker c) \<noteq> speaker_a) cs)) \<and>
         (\<forall>c \<in> set (filter (\<lambda>c. Text (speaker c) \<noteq> speaker_a) cs). Text (speaker c) = speaker_b) \<and>
         process_keys en self conv speaker_a speaker_b id_a id_b (key # keys) tr =
           process_keys en self conv speaker_a speaker_b id_a id_b keys
             (run_thread en self id_b
                (map (\<lambda>c. \<lparr>role = ''user'', content = chat_text c, alias = Text (speaker c),
                            created_at = timestamp\<rparr>)
                   (filter (\<lambda>c. Text (speaker c) \<noteq> speaker_a) cs))
                ''Adding Memories for Speaker B''
                (run_thread en self id_a
                   (map (\<lambda>c. \<lparr>role = ''user'', content = chat_text c, alias = Text (speaker c),
                               created_at = timestamp\<rparr>)
                      (filter (\<lambda>c. Text (speaker c) = speaker_a) cs))
                   ''Adding Memories for Speaker A'' tr))"
proof -
  have split: "split_segment speaker_a speaker_b timestamp (Turns cs) =
           Inr (map (\<lambda>c. \<lparr>role = ''user'', content = chat_text c, alias = Text (speaker c),
                            created_at = timestamp\<rparr>)
                  (filter (\<lambda>c. Text (speaker c) = speaker_a) cs),
                map (\<lambda>c. \<lparr>role = ''user'', content = chat_text c, alias = Text (speaker c),
                            created_at = timestamp\<rparr>)
                  (filter (\<lambda>c. Text (speaker c) \<noteq> speaker_a) cs))"
    using split_chats_known[OF known, of timestamp "[]" "[]"] by (simp add: split_segment_def)
  have other: "\<forall>c \<in> set (filter (\<lambda>c. Text (speaker c) \<noteq> speaker_a) cs). Text (speaker c) = speaker_b"
    using known by auto
  show ?thesis
    using other by (simp add: split key stamp seg Let_def)
qed

text \<open>
  The segment of the end-to-end example.
\<close>

theorem splitter_assigns_each_turn_witness:
  "list_all (\<lambda>c. Text (speaker c) = Text ''A'' \<or> Text (speaker c) = Text ''B'')
     [\<lparr>speaker = ''A'', chat_text = ''hi''\<rparr>, \<lparr>speaker = ''B'', chat_text = ''yo''\<rparr>] \<and>
   \<not> skipped_key ''seg1'' \<and>
   map_of example_conversation (''seg1'' @ ''_date_time'') = Some (Text ''t1'') \<and>
   map_of example_conversation ''seg1'' =
     Some (Turns [\<lparr>speaker = ''A'', chat_text = ''hi''\<rparr>, \<lparr>speaker = ''B'', chat_text = ''yo''\<rparr>]) \<and>
   split_segment (Text ''A'') (Text ''B'') (Text ''t1'')
       (Turns [\<lparr>speaker = ''A'', chat_text = ''hi''\<rparr>, \<lparr>speaker = ''B'', chat_text = ''yo''\<rparr>]) =
     Inr ([\<lparr>role = ''user'', content = ''hi'', alias = Text ''A'', created_at = Text ''t1''\<rparr>],
          [\<lparr>role = ''user'', content = ''yo'', alias = Text ''B'', created_at = Text ''t1''\<rparr>])"
proof -
  have known: "\<forall>c \<in> set [\<lparr>speaker = ''A'', chat_text = ''hi''\<rparr>, \<lparr>speaker = ''B'', chat_text = ''yo''\<rparr>].
      Text (speaker c) = Text ''A'' \<or> Text (speaker c) = Text ''B''"
    by simp
  have key: "\<not> skipped_key ''seg1''"
    by (simp add: skipped_key_def)
  have stamp: "map_of example_conversation (''seg1'' @ ''_date_time'') = Some (Text ''t1'')"
    by (simp add: example_conversation_def)
  have seg: "map_of example_conversation ''seg1'' =
     Some (Turns [\<lparr>speaker = ''A'', chat_text = ''hi''\<rparr>, \<lparr>speaker = ''B'', chat_text = ''yo''\<rparr>])"
    by (simp add: example_conversation_def)
  have listed: "list_all (\<lambda>c. Text (speaker c) = Text ''A'' \<or> Text (speaker c) = Text ''B'')
     [\<lparr>speaker = ''A'', chat_text = ''hi''\<rparr>, \<lparr>speaker = ''B'', chat_text = ''yo''\<rparr>]"
    by simp
  show ?thesis
    using splitter_assigns_each_turn[OF known key stamp seg, of ok_env self0 "''A_0''" "''B_0''" "[]" "[]"]
      listed key stamp seg
    by simp
qed

text \<open>
  Claim C4. Splitting a segment fails with the unknown-speaker error if and only if the
  segment is an array of turns one of which carries a label that is neither speaker A's nor
  speaker B's. When the loop over the keys reaches such a segment it returns that error
  with the trace unchanged: nothing is retried, no upload of the segment is started, no
  insert is issued, and the remaining keys are not processed. \<open>process_conversation\<close> then
  raises the same error, with the trace that the keys before the segment left.
\<close>

theorem unknown_speaker_aborts:
  "((\<exists>s. split_segment a b ts chats = Inl (unknown_speaker s)) \<longleftrightarrow>
    (\<exists>cs. chats = Turns cs \<and> (\<exists>c \<in> set cs. Text (speaker c) \<noteq> a \<and> Text (speaker c) \<noteq> b))) \<and>
   (\<not> skipped_key key \<longrightarrow>
    map_of conv (key @ ''_date_time'') = Some ts \<longrightarrow>
    map_of conv key = Some (Turns cs) \<longrightarrow>
    (\<exists>c \<in> set cs. Text (speaker c) \<noteq> a \<and> Text (speaker c) \<noteq> b) \<longrightarrow>
    (\<exists>s. (\<forall>keys tr. process_keys en self conv a b id_a id_b (key # keys) tr =
                      (Inl (unknown_speaker s), tr)) \<and>
          (\<forall>itm idx pre keys tr t.
             map_of itm ''conversation'' = Some conv \<longrightarrow>
             map_of conv ''speaker_a'' = Some a \<longrightarrow>
             map_of conv ''speaker_b'' = Some b \<longrightarrow>
             map fst conv = pre @ key # keys \<longrightarrow>
             process_keys en self conv a b
               (str_field en a @ ''_'' @ str_nat idx) (str_field en b @ ''_'' @ str_nat idx) pre
               (delete_users en (str_field en a @ ''_'' @ str_nat idx)
                  (str_field en b @ ''_'' @ str_nat idx) tr) = (Inr (), t) \<longrightarrow>
             process_conversation en self itm idx tr =
               (Inl (unknown_speaker s), t))))"
proof (intro conjI impI)
  show "(\<exists>s. split_segment a b ts chats = Inl (unknown_speaker s)) \<longleftrightarrow>
    (\<exists>cs. chats = Turns cs \<and> (\<exists>c \<in> set cs. Text (speaker c) \<noteq> a \<and> Text (speaker c) \<noteq> b))"
    by (rule split_segment_unknown_iff)
next
  assume key: "\<not> skipped_key key"
    and stamp: "map_of conv (key @ ''_date_time'') = Some ts"
    and seg: "map_of conv key = Some (Turns cs)"
    and bad: "\<exists>c \<in> set cs. Text (speaker c) \<noteq> a \<and> Text (speaker c) \<noteq> b"
  from bad obtain s where s: "split_segment a b ts (Turns cs) = Inl (unknown_speaker s)"
    using split_segment_unknown_iff[of a b ts "Turns cs"] by blast
  have loop: "process_keys en self conv a b ia ib (key # keys) tr =
                (Inl (unknown_speaker s), tr)" for ia ib keys tr
    by (rule process_keys_unknown[OF key stamp seg s])
  have conv: "process_conversation en self itm idx tr =
               (Inl (unknown_speaker s), t)"
    if "map_of itm ''conversation'' = Some conv" "map_of conv ''speaker_a'' = Some a"
      "map_of conv ''speaker_b'' = Some b" "map fst conv = pre @ key # keys"
      "process_keys en self conv a b
               (str_field en a @ ''_'' @ str_nat idx) (str_field en b @ ''_'' @ str_nat idx) pre
               (delete_users en (str_field en a @ ''_'' @ str_nat idx)
                  (str_field en b @ ''_'' @ str_nat idx) tr) = (Inr (), t)"
    for itm idx pre keys tr t
    using that by (simp add: process_conversation_def Let_def process_keys_append loop
                     del: process_keys.simps)
  show "\<exists>s. (\<forall>keys tr. process_keys en self conv a b id_a id_b (key # keys) tr =
                      (Inl (unknown_speaker s), tr)) \<and>
          (\<forall>itm idx pre keys tr t.
             map_of itm ''conversation'' = Some conv \<longrightarrow>
             map_of conv ''speaker_a'' = Some a \<longrightarrow>
             map_of conv ''speaker_b'' = Some b \<longrightarrow>
             map fst conv = pre @ key # keys \<longrightarrow>
             process_keys en self conv a b
               (str_field en a @ ''_'' @ str_nat idx) (str_field en b @ ''_'' @ str_nat idx) pre
               (delete_users en (str_field en a @ ''_'' @ str_nat idx)
                  (str_field en b @ ''_'' @ str_nat idx) tr) = (Inr (), t) \<longrightarrow>
             process_conversation en self itm idx tr =
               (Inl (unknown_speaker s), t))"
  proof (intro exI[of _ s] conjI allI impI)
    fix keys tr
    show "process_keys en self conv a b id_a id_b (key # keys) tr =
            (Inl (unknown_speaker s), tr)"
      by (rule loop)
  next
    fix itm idx pre keys tr t
    assume "map_of itm ''conversation'' = Some conv" "map_of conv ''speaker_a'' = Some a"
      "map_of conv ''speaker_b'' = Some b" "map fst conv = pre @ key # keys"
      "process_keys en self conv a b
               (str_field en a @ ''_'' @ str_nat idx) (str_field en b @ ''_'' @ str_nat idx) pre
               (delete_users en (str_field en a @ ''_'' @ str_nat idx)
                  (str_field en b @ ''_'' @ str_nat idx) tr) = (Inr (), t)"
    then show "process_conversation en self itm idx tr =
                 (Inl (unknown_speaker s), t)"
      by (rule conv)
  qed
qed

text \<open>
  A conversation whose second segment has a turn of a third speaker: the first segment is
  uploaded, the second raises, and the trace holds nothing of the second segment.
\<close>

theorem unknown_speaker_aborts_witness:
  "\<not> skipped_key ''seg2'' \<and>
   map_of late_stranger_conversation (''seg2'' @ ''_date_time'') = Some (Text ''t2'') \<and>
   map_of late_stranger_conversation ''seg2'' =
     Some (Turns [\<lparr>speaker = ''B'', chat_text = ''yo''\<rparr>, \<lparr>speaker = ''C'', chat_text = ''hey''\<rparr>]) \<and>
   (\<exists>c \<in> set [\<lparr>speaker = ''B'', chat_text = ''yo''\<rparr>, \<lparr>speaker = ''C'', chat_text = ''hey''\<rparr>].
      Text (speaker c) \<noteq> Text ''A'' \<and> Text (speaker c) \<noteq> Text ''B'') \<and>
   map_of late_stranger_item ''conversation'' = Some late_stranger_conversation \<and>
   map fst late_stranger_conversation =
     [''speaker_a'', ''speaker_b'', ''seg1_date_time'', ''seg1'', ''seg2_date_time''] @ ''seg2'' # [] \<and>
   process_keys ok_env self0 late_stranger_conversation (Text ''A'') (Text ''B'')
       (str_field ok_env (Text ''A'') @ ''_'' @ str_nat 0)
       (str_field ok_env (Text ''B'') @ ''_'' @ str_nat 0)
       [''speaker_a'', ''speaker_b'', ''seg1_date_time'', ''seg1'', ''seg2_date_time'']
       (delete_users ok_env (str_field ok_env (Text ''A'') @ ''_'' @ str_nat 0)
          (str_field ok_env (Text ''B'') @ ''_'' @ str_nat 0) []) = (Inr (), seg1_trace) \<and>
   (\<exists>s. process_conversation ok_env self0 late_stranger_item 0 [] = (Inl (unknown_speaker s), seg1_trace))"
proof -
  have key: "\<not> skipped_key ''seg2''"
    by code_simp
  have stamp: "map_of late_stranger_conversation (''seg2'' @ ''_date_time'') = Some (Text ''t2'')"
    by code_simp
  have seg: "map_of late_stranger_conversation ''seg2'' =
     Some (Turns [\<lparr>speaker = ''B'', chat_text = ''yo''\<rparr>, \<lparr>speaker = ''C'', chat_text = ''hey''\<rparr>])"
    by code_simp
  have bad: "\<exists>c \<in> set [\<lparr>speaker = ''B'', chat_text = ''yo''\<rparr>, \<lparr>speaker = ''C'', chat_text = ''hey''\<rparr>].
      Text (speaker c) \<noteq> Text ''A'' \<and> Text (speaker c) \<noteq> Text ''B''"
    by simp
  have itm: "map_of late_stranger_item ''conversation'' = Some late_stranger_conversation"
    by (simp add: late_stranger_item_def)
  have sa: "map_of late_stranger_conversation ''speaker_a'' = Some (Text ''A'')"
    and sb: "map_of late_stranger_conversation ''speaker_b'' = Some (Text ''B'')"
    by code_simp+
  have keys: "map fst late_stranger_conversation =
     [''speaker_a'', ''speaker_b'', ''seg1_date_time'', ''seg1'', ''seg2_date_time''] @ ''seg2'' # []"
    by code_simp
  have pre: "process_keys ok_env self0 late_stranger_conversation (Text ''A'') (Text ''B'')
       (str_field ok_env (Text ''A'') @ ''_'' @ str_nat 0)
       (str_field ok_env (Text ''B'') @ ''_'' @ str_nat 0)
       [''speaker_a'', ''speaker_b'', ''seg1_date_time'', ''seg1'', ''seg2_date_time'']
       (delete_users ok_env (str_field ok_env (Text ''A'') @ ''_'' @ str_nat 0)
          (str_field ok_env (Text ''B'') @ ''_'' @ str_nat 0) []) = (Inr (), seg1_trace)"
    by code_simp
  from unknown_speaker_aborts[of "Text ''A''" "Text ''B''" "Text ''t2''" "Turns []" "''seg2''"
      late_stranger_conversation
      "[\<lparr>speaker = ''B'', chat_text = ''yo''\<rparr>, \<lparr>speaker = ''C'', chat_text = ''hey''\<rparr>]"
      ok_env self0 "''A_0''" "''B_0''"]
  obtain s where "\<forall>itm idx pre keys tr t.
             map_of itm ''conversation'' = Some late_stranger_conversation \<longrightarrow>
             map_of late_stranger_conversation ''speaker_a'' = Some (Text ''A'') \<longrightarrow>
             map_of late_stranger_conversation ''speaker_b'' = Some (Text ''B'') \<longrightarrow>
             map fst late_stranger_conversation = pre @ ''seg2'' # keys \<longrightarrow>
             process_keys ok_env self0 late_stranger_conversation (Text ''A'') (Text ''B'')
               (str_field ok_env (Text ''A'') @ ''_'' @ str_nat idx)
               (str_field ok_env (Text ''B'') @ ''_'' @ str_nat idx) pre
               (delete_users ok_env (str_field ok_env (Text ''A'') @ ''_'' @ str_nat idx)
                  (str_field ok_env (Text ''B'') @ ''_'' @ str_nat idx) tr) = (Inr (), t) \<longrightarrow>
             process_conversation ok_env self0 itm idx tr = (Inl (unknown_speaker s), t)"
    using key stamp seg bad by (elim conjE impE exE) assumption+
  then have "process_conversation ok_env self0 late_stranger_item 0 [] =
               (Inl (unknown_speaker s), seg1_trace)"
    using itm sa sb keys pre by (elim allE impE) assumption+
  then have "\<exists>s. process_conversation ok_env self0 late_stranger_item 0 [] =
               (Inl (unknown_speaker s), seg1_trace)" ..
  with key stamp seg bad itm keys pre show ?thesis
    by (intro conjI)
qed

text \<open>
  Claim C5, with the role that the code writes. Every message that the splitter builds has
  the role \<^verbatim>\<open>"user"\<close>, whichever of the two speakers uttered the turn, and every message
  of every batch that \<open>process_conversation\<close> sends has the role \<^verbatim>\<open>"user"\<close>.
\<close>

theorem outbound_role_is_user:
  "(split_segment speaker_a speaker_b timestamp chats = Inr (messages, messages_reverse) \<longrightarrow>
      (\<forall>m \<in> set messages \<union> set messages_reverse. role m = ''user'')) \<and>
   (\<exists>evs. snd (process_conversation en self itm idx tr) = tr @ evs \<and>
      (\<forall>batch \<in> set (sent_batches evs). \<forall>m \<in> set batch. role m = ''user''))"
proof (intro conjI impI)
  assume "split_segment speaker_a speaker_b timestamp chats = Inr (messages, messages_reverse)"
  then have "list_all user_role messages \<and> list_all user_role messages_reverse"
    by (rule split_segment_roles)
  then show "\<forall>m \<in> set messages \<union> set messages_reverse. role m = ''user''"
    unfolding list_all_iff user_role_def by blast
next
  obtain evs where evs: "snd (process_conversation en self itm idx tr) = tr @ evs"
    and inv: "list_all (conv_event user_role) evs"
    using process_conversation_extends[of tr en self itm idx] unfolding extends_def by blast
  have "\<forall>batch \<in> set (sent_batches evs). list_all user_role batch"
    using inv by (rule sent_conv_events)
  then have "\<forall>batch \<in> set (sent_batches evs). \<forall>m \<in> set batch. role m = ''user''"
    unfolding list_all_iff user_role_def by blast
  with evs show "\<exists>evs. snd (process_conversation en self itm idx tr) = tr @ evs \<and>
      (\<forall>batch \<in> set (sent_batches evs). \<forall>m \<in> set batch. role m = ''user'')"
    by blast
qed

text \<open>
  In the end-to-end example both sent messages have the role \<^verbatim>\<open>"user"\<close>.
\<close>

theorem outbound_role_is_user_witness:
  "split_segment (Text ''A'') (Text ''B'') (Text ''t1'')
       (Turns [\<lparr>speaker = ''A'', chat_text = ''hi''\<rparr>, \<lparr>speaker = ''B'', chat_text = ''yo''\<rparr>]) =
     Inr ([\<lparr>role = ''user'', content = ''hi'', alias = Text ''A'', created_at = Text ''t1''\<rparr>],
          [\<lparr>role = ''user'', content = ''yo'', alias = Text ''B'', created_at = Text ''t1''\<rparr>]) \<and>
   list_all user_role
     ([\<lparr>role = ''user'', content = ''hi'', alias = Text ''A'', created_at = Text ''t1''\<rparr>] @
      [\<lparr>role = ''user'', content = ''yo'', alias = Text ''B'', created_at = Text ''t1''\<rparr>]) \<and>
   list_all (list_all user_role)
     (sent_batches (snd (process_conversation ok_env self0 example_item 0 [])))"
  using outbound_role_is_user[of "Text ''A''" "Text ''B''" "Text ''t1''"
      "Turns [\<lparr>speaker = ''A'', chat_text = ''hi''\<rparr>, \<lparr>speaker = ''B'', chat_text = ''yo''\<rparr>]"
      "[\<lparr>role = ''user'', content = ''hi'', alias = Text ''A'', created_at = Text ''t1''\<rparr>]"
      "[\<lparr>role = ''user'', content = ''yo'', alias = Text ''B'', created_at = Text ''t1''\<rparr>]"
      ok_env self0 example_item 0 "[]"]
  by (simp add: example_split list_all_iff user_role_def)

text \<open>
  The role field that claim C5 names is not what is sent: in the end-to-end example the role
  of each sent message is \<^verbatim>\<open>"user"\<close>, not \<^verbatim>\<open>"self"\<close>.
\<close>

theorem role_is_not_self_counterexample:
  "map (map role) (sent_batches (snd (process_conversation ok_env self0 example_item 0 []))) =
     [[''user''], [''user'']] \<and>
   map (map role) (sent_batches (snd (process_conversation ok_env self0 example_item 0 []))) \<noteq>
     [[''self''], [''self'']]"
  unfolding example_sent by simp

text \<open>
  Claim C6 says that a failure of either deletion leaves the other deletion attempted. Both
  calls stand in one \<^verbatim>\<open>try\<close> block, so when the deletion for speaker A raises, the
  deletion for speaker B is never called; the segments are processed all the same. Here the
  code is run on the end-to-end example with a service that does not know speaker A's user.
\<close>

theorem first_delete_failure_skips_second:
  "delete_users delete_a_fails_env ''A_0'' ''B_0'' [] =
     [DeleteUser ''uuid-A_0memobase_client'' (Some (RemoteError ''user not found''))] \<and>
   fst (process_conversation delete_a_fails_env self0 example_item 0 []) = Inr () \<and>
   delete_calls (snd (process_conversation delete_a_fails_env self0 example_item 0 [])) =
     [(''uuid-A_0memobase_client'', Some (RemoteError ''user not found''))]"
  by code_simp

text \<open>
  Claim C7. When all batches are inserted, the flush succeeds and the output directory
  exists, \<open>add_memories_for_speaker\<close> returns normally whatever the profile request and the
  file write do. When the profile request raises, or when the write of the file raises, the
  run ends with the message \<^verbatim>\<open>Failed to save profile for user ...\<close> and no exception.
\<close>

theorem profile_failure_is_logged:
  assumes usr: "remote_get_or_create_user en tr (string_to_uuid en speaker_id default_salt) = Inr u"
    and step: "batch_size self \<noteq> 0"
    and loop: "upload_batches en self u messages
                 (range_from 0 (int (length messages)) (batch_size self))
                 (tr @ [GetOrCreateUser (string_to_uuid en speaker_id default_salt)]) = (Inr (), tr2)"
    and flush: "remote_flush en tr2 u = None"
    and dir: "os_makedirs en (tr2 @ [Flush u]) ''memobase_memories'' = None"
  shows "fst (add_memories_for_speaker en self speaker_id messages desc tr) = Inr () \<and>
         (\<forall>e. remote_profile en (tr2 @ [Flush u, Makedirs ''memobase_memories'']) u = Inl e \<longrightarrow>
            snd (add_memories_for_speaker en self speaker_id messages desc tr) =
              tr2 @ [Flush u, Makedirs ''memobase_memories'', Profile u,
                     Print (''Failed to save profile for user '' @ user_id u @ '': '' @ str_exn e)]) \<and>
         (\<forall>p e. remote_profile en (tr2 @ [Flush u, Makedirs ''memobase_memories'']) u = Inr p \<longrightarrow>
            write_json en (tr2 @ [Flush u, Makedirs ''memobase_memories'', Profile u])
              (''memobase_memories/'' @ user_id u @ ''.json'') p = Some e \<longrightarrow>
            snd (add_memories_for_speaker en self speaker_id messages desc tr) =
              tr2 @ [Flush u, Makedirs ''memobase_memories'', Profile u,
                     WriteFile (''memobase_memories/'' @ user_id u @ ''.json'') p,
                     Print (''Failed to save profile for user '' @ user_id u @ '': '' @ str_exn e)])"
proof -
  have rng: "py_range3 0 (int (length messages)) (batch_size self)
             = Inr (range_from 0 (int (length messages)) (batch_size self))"
    using step by (simp add: py_range3_def)
  have run: "add_memories_for_speaker en self speaker_id messages desc tr =
               (Inr (), save_profile en u (tr2 @ [Flush u, Makedirs ''memobase_memories'']))"
    by (simp add: add_memories_for_speaker_after_loop[OF usr rng loop] flush dir)
  show ?thesis
    by (simp add: run save_profile_def Let_def)
qed

text \<open>
  A service without a profile, and a disk that cannot be written.
\<close>

theorem profile_failure_is_logged_witness:
  "fst (add_memories_for_speaker profile_fails_env self0 ''A_0'' [msg ''hi''] ''desc'' []) = Inr () \<and>
   snd (add_memories_for_speaker profile_fails_env self0 ''A_0'' [msg ''hi''] ''desc'' []) =
     uploaded_trace @ [Flush alice_user, Makedirs ''memobase_memories'', Profile alice_user,
       Print (''Failed to save profile for user '' @ user_id alice_user @ '': '' @
              str_exn (RemoteError ''no profile''))] \<and>
   fst (add_memories_for_speaker write_fails_env self0 ''A_0'' [msg ''hi''] ''desc'' []) = Inr () \<and>
   snd (add_memories_for_speaker write_fails_env self0 ''A_0'' [msg ''hi''] ''desc'' []) =
     uploaded_trace @ [Flush alice_user, Makedirs ''memobase_memories'', Profile alice_user,
       WriteFile (''memobase_memories/'' @ user_id alice_user @ ''.json'') ''{}'',
       Print (''Failed to save profile for user '' @ user_id alice_user @ '': '' @
              str_exn (OSError ''disk full''))]"
proof -
  have step: "batch_size self0 \<noteq> 0"
    by (simp add: self0_def)
  have usr1: "remote_get_or_create_user profile_fails_env []
                (string_to_uuid profile_fails_env ''A_0'' default_salt) = Inr alice_user"
    by code_simp
  have loop1: "upload_batches profile_fails_env self0 alice_user [msg ''hi'']
                 (range_from 0 (int (length [msg ''hi''])) (batch_size self0))
                 ([] @ [GetOrCreateUser (string_to_uuid profile_fails_env ''A_0'' default_salt)])
               = (Inr (), uploaded_trace)"
    by code_simp
  have flush1: "remote_flush profile_fails_env uploaded_trace alice_user = None"
    by code_simp
  have dir1: "os_makedirs profile_fails_env (uploaded_trace @ [Flush alice_user]) ''memobase_memories'' = None"
    by code_simp
  have prof1: "remote_profile profile_fails_env
                 (uploaded_trace @ [Flush alice_user, Makedirs ''memobase_memories'']) alice_user
               = Inl (RemoteError ''no profile'')"
    by code_simp
  have usr2: "remote_get_or_create_user write_fails_env []
                (string_to_uuid write_fails_env ''A_0'' default_salt) = Inr alice_user"
    by code_simp
  have loop2: "upload_batches write_fails_env self0 alice_user [msg ''hi'']
                 (range_from 0 (int (length [msg ''hi''])) (batch_size self0))
                 ([] @ [GetOrCreateUser (string_to_uuid write_fails_env ''A_0'' default_salt)])
               = (Inr (), uploaded_trace)"
    by code_simp
  have flush2: "remote_flush write_fails_env uploaded_trace alice_user = None"
    by code_simp
  have dir2: "os_makedirs write_fails_env (uploaded_trace @ [Flush alice_user]) ''memobase_memories'' = None"
    by code_simp
  have prof2: "remote_profile write_fails_env
                 (uploaded_trace @ [Flush alice_user, Makedirs ''memobase_memories'']) alice_user
               = Inr ''{}''"
    by code_simp
  have write2: "write_json write_fails_env
                  (uploaded_trace @ [Flush alice_user, Makedirs ''memobase_memories'', Profile alice_user])
                  (''memobase_memories/'' @ user_id alice_user @ ''.json'') ''{}''
                = Some (OSError ''disk full'')"
    by code_simp
  note first = profile_failure_is_logged[OF usr1 step loop1 flush1 dir1, of "''desc''"]
  note second = profile_failure_is_logged[OF usr2 step loop2 flush2 dir2, of "''desc''"]
  have a: "fst (add_memories_for_speaker profile_fails_env self0 ''A_0'' [msg ''hi''] ''desc'' []) = Inr ()"
    using first by (rule conjunct1)
  have b: "snd (add_memories_for_speaker profile_fails_env self0 ''A_0'' [msg ''hi''] ''desc'' []) =
     uploaded_trace @ [Flush alice_user, Makedirs ''memobase_memories'', Profile alice_user,
       Print (''Failed to save profile for user '' @ user_id alice_user @ '': '' @
              str_exn (RemoteError ''no profile''))]"
    using first[THEN conjunct2, THEN conjunct1, rule_format, OF prof1] .
  have c: "fst (add_memories_for_speaker write_fails_env self0 ''A_0'' [msg ''hi''] ''desc'' []) = Inr ()"
    using second by (rule conjunct1)
  have d: "snd (add_memories_for_speaker write_fails_env self0 ''A_0'' [msg ''hi''] ''desc'' []) =
     uploaded_trace @ [Flush alice_user, Makedirs ''memobase_memories'', Profile alice_user,
       WriteFile (''memobase_memories/'' @ user_id alice_user @ ''.json'') ''{}'',
       Print (''Failed to save profile for user '' @ user_id alice_user @ '': '' @
              str_exn (OSError ''disk full''))]"
    using second[THEN conjunct2, THEN conjunct2, rule_format, OF prof2 write2] .
  from a b c d show ?thesis by (intro conjI)
qed

text \<open>
  Claim C8, for the caps that the code honours. For a loaded dataset, a cap \<open>n\<close> with
  \<open>1 \<le> n\<close> and \<open>n\<close> at most the dataset's length, and a positive worker count, the driver
  submits exactly the first \<open>n\<close> records, each with its index, in the original order, and
  leaves those records in \<^verbatim>\<open>self.data\<close>.
\<close>

theorem cap_selects_first_records:
  assumes dat: "data self = Some d"
    and low: "1 \<le> n"
    and high: "n \<le> int (length d)"
    and pool: "0 < max_workers"
  shows "submitted (snd (snd (process_all_conversations en self max_workers (Some n) tr))) =
           submitted tr @ enumerate 0 (take (nat n) d) \<and>
         data (fst (snd (process_all_conversations en self max_workers (Some n) tr))) =
           Some (take (nat n) d)"
proof -
  have ne: "d \<noteq> []" using low high by auto
  define self' where "self' = self\<lparr>data := Some (take (nat n) d)\<rparr>"
  obtain rs t where sa: "submit_all en self' (enumerate 0 (take (nat n) d)) tr = (rs, t)"
    by (cases "submit_all en self' (enumerate 0 (take (nat n) d)) tr")
  have t: "submitted t = submitted tr @ enumerate 0 (take (nat n) d)"
    using submit_all_submitted[of en self' "enumerate 0 (take (nat n) d)" tr] sa by simp
  have "process_all_conversations en self max_workers (Some n) tr = (collect_results rs, self', t)"
    using dat low pool ne sa
    by (simp add: process_all_conversations_def truthy_data_def truthy_int_def py_slice_prefix
          self'_def)
  then show ?thesis using t by (simp add: self'_def)
qed

text \<open>
  A dataset of three records with the cap 2.
\<close>

theorem cap_selects_first_records_witness:
  "data \<lparr>batch_size = 2, data = Some three_records\<rparr> = Some three_records \<and>
   (1::int) \<le> 2 \<and> 2 \<le> int (length three_records) \<and> (0::int) < 10 \<and>
   submitted (snd (snd (process_all_conversations ok_env \<lparr>batch_size = 2, data = Some three_records\<rparr>
                          10 (Some 2) []))) = [(0, example_item), (1, stranger_item)] \<and>
   data (fst (snd (process_all_conversations ok_env \<lparr>batch_size = 2, data = Some three_records\<rparr>
                          10 (Some 2) []))) = Some [example_item, stranger_item]"
proof -
  have dat: "data \<lparr>batch_size = 2, data = Some three_records\<rparr> = Some three_records"
    by simp
  have low: "(1::int) \<le> 2" by simp
  have high: "2 \<le> int (length three_records)"
    by (simp add: three_records_def)
  have pool: "(0::int) < 10" by simp
  have en: "enumerate 0 (take (nat 2) three_records) = [(0, example_item), (1, stranger_item)]"
    by (simp add: three_records_def)
  have tk: "take (nat 2) three_records = [example_item, stranger_item]"
    by (simp add: three_records_def)
  have s: "submitted [] = []"
    by (simp add: submitted_def)
  from cap_selects_first_records[OF dat low high pool, of ok_env "[]"]
  have "submitted (snd (snd (process_all_conversations ok_env \<lparr>batch_size = 2, data = Some three_records\<rparr>
                          10 (Some 2) []))) = [(0, example_item), (1, stranger_item)]"
    and "data (fst (snd (process_all_conversations ok_env \<lparr>batch_size = 2, data = Some three_records\<rparr>
                          10 (Some 2) []))) = Some [example_item, stranger_item]"
    unfolding en tk s by simp_all
  with dat low high pool show ?thesis by (intro conjI)
qed

text \<open>
  A cap of zero is at most the dataset's length, but \<^verbatim>\<open>if max_samples:\<close> is false for it,
  so the driver submits every record and not the first zero of claim C8.
\<close>

theorem zero_cap_counterexample:
  "submitted (snd (snd (process_all_conversations ok_env \<lparr>batch_size = 2, data = Some three_records\<rparr>
                          10 (Some 0) []))) \<noteq> enumerate 0 (take (nat 0) three_records)"
proof -
  have "submitted (snd (snd (process_all_conversations ok_env \<lparr>batch_size = 2, data = Some three_records\<rparr>
                          10 (Some 0) []))) =
          [(0, example_item), (1, stranger_item), (2, late_stranger_item)]"
    by code_simp
  then show ?thesis by simp
qed

text \<open>
  Claim C9. When no data was loaded, or the loaded dataset is the empty array,
  \<open>process_all_conversations\<close> raises \<^verbatim>\<open>ValueError\<close> and leaves the object and the trace
  as they were: no task is submitted.
\<close>

theorem empty_dataset_is_rejected:
  assumes "data self = None \<or> data self = Some []"
  shows "process_all_conversations en self max_workers max_samples tr =
           (Inl (ValueError ''No data loaded. Please set data_path and call load_data() first.''),
            self, tr)"
  using assms by (auto simp: process_all_conversations_def truthy_data_def)

text \<open>
  An object without data, and an object with an empty dataset.
\<close>

theorem empty_dataset_is_rejected_witness:
  "process_all_conversations ok_env \<lparr>batch_size = 2, data = None\<rparr> 10 None [] =
     (Inl (ValueError ''No data loaded. Please set data_path and call load_data() first.''),
      \<lparr>batch_size = 2, data = None\<rparr>, []) \<and>
   process_all_conversations ok_env \<lparr>batch_size = 2, data = Some []\<rparr> 10 (Some 5) [] =
     (Inl (ValueError ''No data loaded. Please set data_path and call load_data() first.''),
      \<lparr>batch_size = 2, data = Some []\<rparr>, [])"
proof -
  have n: "data \<lparr>batch_size = 2, data = None\<rparr> = None \<or> data \<lparr>batch_size = 2, data = None\<rparr> = Some []"
    by simp
  have e: "data \<lparr>batch_size = 2, data = Some []\<rparr> = None \<or> data \<lparr>batch_size = 2, data = Some []\<rparr> = Some []"
    by simp
  from empty_dataset_is_rejected[OF n, of ok_env 10 None "[]"]
    empty_dataset_is_rejected[OF e, of ok_env 10 "Some 5" "[]"]
  show ?thesis by (intro conjI)
qed

text \<open>
  Claim C10. When all batches are inserted and the flush raises, \<open>add_memories_for_speaker\<close>
  raises the same exception. The flush is called once, and neither the profile request nor
  the file write appears among the events of the run.
\<close>

theorem flush_failure_propagates:
  assumes usr: "remote_get_or_create_user en tr (string_to_uuid en speaker_id default_salt) = Inr u"
    and step: "batch_size self \<noteq> 0"
    and loop: "upload_batches en self u messages
                 (range_from 0 (int (length messages)) (batch_size self))
                 (tr @ [GetOrCreateUser (string_to_uuid en speaker_id default_salt)]) = (Inr (), tr2)"
    and flush: "remote_flush en tr2 u = Some e"
  shows "add_memories_for_speaker en self speaker_id messages desc tr = (Inl e, tr2 @ [Flush u]) \<and>
         (\<exists>evs. tr2 @ [Flush u] = tr @ evs \<and>
                filter is_flush evs = [Flush u] \<and> filter is_snapshot evs = [])"
proof -
  define g where "g = GetOrCreateUser (string_to_uuid en speaker_id default_salt)"
  have rng: "py_range3 0 (int (length messages)) (batch_size self)
             = Inr (range_from 0 (int (length messages)) (batch_size self))"
    using step by (simp add: py_range3_def)
  have run: "add_memories_for_speaker en self speaker_id messages desc tr = (Inl e, tr2 @ [Flush u])"
    by (simp add: add_memories_for_speaker_after_loop[OF usr rng loop] flush)
  obtain ups where ups: "tr2 = (tr @ [g]) @ ups" "list_all is_upload ups"
    using upload_batches_uploads[of en self u messages
        "range_from 0 (int (length messages)) (batch_size self)" "tr @ [g]"] loop
    unfolding g_def by auto
  have no_flush: "filter is_flush ups = []" and no_snap: "filter is_snapshot ups = []"
    using ups(2) by (induction ups) (auto elim: is_upload.elims)
  have "tr2 @ [Flush u] = tr @ (g # ups @ [Flush u])"
    using ups(1) by simp
  moreover have "filter is_flush (g # ups @ [Flush u]) = [Flush u]"
    using no_flush by (simp add: g_def)
  moreover have "filter is_snapshot (g # ups @ [Flush u]) = []"
    using no_snap by (simp add: g_def)
  ultimately show ?thesis using run by blast
qed

text \<open>
  A service whose flush fails after the one batch is inserted.
\<close>

theorem flush_failure_propagates_witness:
  "remote_flush flush_fails_env uploaded_trace alice_user = Some (RemoteError ''flush failed'') \<and>
   add_memories_for_speaker flush_fails_env self0 ''A_0'' [msg ''hi''] ''desc'' [] =
     (Inl (RemoteError ''flush failed''), uploaded_trace @ [Flush alice_user]) \<and>
   filter is_snapshot (uploaded_trace @ [Flush alice_user]) = []"
proof -
  have step: "batch_size self0 \<noteq> 0"
    by (simp add: self0_def)
  have usr: "remote_get_or_create_user flush_fails_env []
                (string_to_uuid flush_fails_env ''A_0'' default_salt) = Inr alice_user"
    by code_simp
  have loop: "upload_batches flush_fails_env self0 alice_user [msg ''hi'']
                 (range_from 0 (int (length [msg ''hi''])) (batch_size self0))
                 ([] @ [GetOrCreateUser (string_to_uuid flush_fails_env ''A_0'' default_salt)])
               = (Inr (), uploaded_trace)"
    by code_simp
  have flush: "remote_flush flush_fails_env uploaded_trace alice_user = Some (RemoteError ''flush failed'')"
    by code_simp
  have snap: "filter is_snapshot (uploaded_trace @ [Flush alice_user]) = []"
    by code_simp
  have "add_memories_for_speaker flush_fails_env self0 ''A_0'' [msg ''hi''] ''desc'' [] =
     (Inl (RemoteError ''flush failed''), uploaded_trace @ [Flush alice_user])"
    using flush_failure_propagates[OF usr step loop flush, of "''desc''"] by (rule conjunct1)
  with flush snap show ?thesis by (intro conjI)
qed

end
